theory Spec2Isabelle
  imports Main
begin

section \<open>Go library functions used by the provisioner\<close>

text \<open>
  The provisioner (\<^verbatim>\<open>nfs-client/cmd/nfs-client-provisioner/provisioner.go\<close>) and its
  second variant in the repository build every path with four library functions:
  \<^verbatim>\<open>fmt.Sprintf\<close> with \<^verbatim>\<open>%s\<close> verbs (concatenation), \<^verbatim>\<open>url.QueryEscape\<close>,
  \<^verbatim>\<open>filepath.Join\<close> and \<^verbatim>\<open>path.Dir\<close> (both end in \<^verbatim>\<open>Clean\<close>). Go strings are byte
  sequences, so they are \<^typ>\<open>string\<close> here.
\<close>

subsection \<open>\<^verbatim>\<open>url.QueryEscape\<close>\<close>

text \<open>
  \<^verbatim>\<open>shouldEscape(c, encodeQueryComponent)\<close>: letters, digits and the four marks
  \<^verbatim>\<open>- _ . ~\<close> are kept, every other byte is escaped.
\<close>

definition shouldEscape :: "char \<Rightarrow> bool" where
  "shouldEscape c =
     (let n = (of_char c :: nat) in
      if 65 \<le> n \<and> n \<le> 90 \<or> 97 \<le> n \<and> n \<le> 122 \<or> 48 \<le> n \<and> n \<le> 57 then False
      else if c = CHR ''-'' \<or> c = CHR ''_'' \<or> c = CHR ''.'' \<or> c = CHR ''~'' then False
      else True)"

text \<open>\<^verbatim>\<open>"0123456789ABCDEF"[i]\<close>, only ever indexed with \<open>i < 16\<close>.\<close>

definition upperhex :: "nat \<Rightarrow> char" where
  "upperhex i = ''0123456789ABCDEF'' ! i"

text \<open>
  One iteration of the second loop of \<^verbatim>\<open>escape\<close>: a space becomes \<^verbatim>\<open>+\<close>, an escaped
  byte becomes \<^verbatim>\<open>%\<close> and two upper-case hex digits (\<^verbatim>\<open>c>>4\<close>, \<^verbatim>\<open>c&15\<close>), any other
  byte is copied.
\<close>

definition escape_byte :: "char \<Rightarrow> string" where
  "escape_byte c =
     (if c = CHR '' '' then ''+''
      else if shouldEscape c
        then [CHR ''%'', upperhex ((of_char c :: nat) div 16), upperhex ((of_char c :: nat) mod 16)]
      else [c])"

primrec QueryEscape :: "string \<Rightarrow> string" where
  "QueryEscape [] = []"
| "QueryEscape (c # cs) = escape_byte c @ QueryEscape cs"

subsection \<open>\<^verbatim>\<open>path.Clean\<close>, \<^verbatim>\<open>filepath.Join\<close>, \<^verbatim>\<open>path.Dir\<close>\<close>

text \<open>
  \<^verbatim>\<open>Clean\<close> walks the path element by element (elements are separated by \<^verbatim>\<open>/\<close>) and
  keeps an output buffer. \<open>elements\<close> cuts a path at every slash; \<open>clean_step\<close> is the
  body of the loop for one element, on the list of elements written so far:
  an empty element and \<^verbatim>\<open>.\<close> are skipped; \<^verbatim>\<open>..\<close> removes the last written element when
  there is one that is not itself \<^verbatim>\<open>..\<close> (\<^verbatim>\<open>out.w > dotdot\<close>), is dropped on a rooted
  path, and is written otherwise; any other element is written.
\<close>

fun elements :: "string \<Rightarrow> string list" where
  "elements [] = [[]]"
| "elements (c # cs) =
     (if c = CHR ''/'' then [] # elements cs
      else (case elements cs of e # es \<Rightarrow> (c # e) # es | [] \<Rightarrow> [[c]]))"

definition clean_step :: "bool \<Rightarrow> string list \<Rightarrow> string \<Rightarrow> string list" where
  "clean_step rooted out e =
     (if e = [] \<or> e = ''.'' then out
      else if e = ''..'' then
        (if out \<noteq> [] \<and> last out \<noteq> ''..'' then butlast out
         else if rooted then out
         else out @ [''..''])
      else out @ [e])"

fun join_slash :: "string list \<Rightarrow> string" where
  "join_slash [] = []"
| "join_slash [e] = e"
| "join_slash (e # es) = e @ ''/'' @ join_slash es"

definition rooted :: "string \<Rightarrow> bool" where
  "rooted p = (case p of [] \<Rightarrow> False | c # _ \<Rightarrow> c = CHR ''/'')"

definition clean_elements :: "string \<Rightarrow> string list" where
  "clean_elements p = foldl (clean_step (rooted p)) [] (elements p)"

definition Clean :: "string \<Rightarrow> string" where
  "Clean p =
     (if p = [] then ''.''
      else if rooted p then CHR ''/'' # join_slash (clean_elements p)
      else if clean_elements p = [] then ''.''
      else join_slash (clean_elements p))"

text \<open>
  \<^verbatim>\<open>filepath.Join\<close> on Unix: leading empty arguments are skipped, the rest is joined
  with \<^verbatim>\<open>/\<close> and cleaned; with no non-empty argument the result is empty.
\<close>

fun filepath_Join :: "string list \<Rightarrow> string" where
  "filepath_Join [] = []"
| "filepath_Join (e # es) = (if e = [] then filepath_Join es else Clean (join_slash (e # es)))"

text \<open>
  \<^verbatim>\<open>path.Dir\<close>: \<^verbatim>\<open>Split\<close> keeps everything up to and including the last slash (nothing
  when there is no slash), and the result is cleaned.
\<close>

fun split_dir :: "string \<Rightarrow> string" where
  "split_dir [] = []"
| "split_dir (c # cs) =
     (if CHR ''/'' \<in> set cs then c # split_dir cs
      else if c = CHR ''/'' then [c]
      else [])"

definition path_Dir :: "string \<Rightarrow> string" where
  "path_Dir p = Clean (split_dir p)"

subsection \<open>Notions for the path lemmas\<close>

text \<open>
  A path element proper: non-empty, without slash, neither \<^verbatim>\<open>.\<close> nor \<^verbatim>\<open>..\<close>.
  \<open>join_base m\<close> is what \<^verbatim>\<open>filepath.Join(m, e)\<close> puts in front of such an element.
  \<open>canonical\<close> describes the element lists that \<^verbatim>\<open>Clean\<close> writes: some \<^verbatim>\<open>..\<close> (none
  on a rooted path) followed by proper elements.
\<close>

definition path_element :: "string \<Rightarrow> bool" where
  "path_element e = (CHR ''/'' \<notin> set e \<and> e \<noteq> [] \<and> e \<noteq> ''.'' \<and> e \<noteq> ''..'')"

definition join_base :: "string \<Rightarrow> string" where
  "join_base m =
     (if rooted m then ''/'' else [])
     @ (if clean_elements m = [] then [] else join_slash (clean_elements m) @ ''/'')"

definition canonical :: "bool \<Rightarrow> string list \<Rightarrow> bool" where
  "canonical r out =
     (\<exists>k rest. out = replicate k ''..'' @ rest \<and> (\<forall>e \<in> set rest. path_element e)
        \<and> (r \<longrightarrow> k = 0))"

section \<open>Naming\<close>

text \<open>\<^verbatim>\<open>const mountPath = "/persistentvolumes"\<close>\<close>

definition mountPath :: string where
  "mountPath = ''/persistentvolumes''"

text \<open>
  \<^verbatim>\<open>pvName(tenant, stack, service, name)\<close> of \<^verbatim>\<open>provisioner.go\<close> is
  \<^verbatim>\<open>fmt.Sprintf("%s-%s-%s-%s", ...)\<close>; \<^verbatim>\<open>pvName(ns, name)\<close> of the second variant is
  \<^verbatim>\<open>fmt.Sprintf("%s-%s", ns, name)\<close>. Definitions of the second variant carry the
  suffix \<open>_ns\<close>.
\<close>

definition pvName :: "string \<Rightarrow> string \<Rightarrow> string \<Rightarrow> string \<Rightarrow> string" where
  "pvName tenant stack service name = tenant @ ''-'' @ stack @ ''-'' @ service @ ''-'' @ name"

definition pvName_ns :: "string \<Rightarrow> string \<Rightarrow> string" where
  "pvName_ns ns name = ns @ ''-'' @ name"

text \<open>
  \<^verbatim>\<open>mountPoint(server, path)\<close> is
  \<^verbatim>\<open>fmt.Sprintf("%s/%s/%s", mountPath, server, url.QueryEscape(path))\<close>. The second
  variant has no such function: \<^verbatim>\<open>Provision\<close> and \<^verbatim>\<open>Delete\<close> both use
  \<^verbatim>\<open>filepath.Join(mountPath, server)\<close>, whatever the path.
\<close>

definition mountPoint :: "string \<Rightarrow> string \<Rightarrow> string" where
  "mountPoint server path = mountPath @ ''/'' @ server @ ''/'' @ QueryEscape path"

definition mountPoint_ns :: "string \<Rightarrow> string \<Rightarrow> string" where
  "mountPoint_ns server path = filepath_Join [mountPath, server]"

section \<open>Kubernetes objects\<close>

text \<open>
  The fields of \<^verbatim>\<open>controller.VolumeOptions\<close>, \<^verbatim>\<open>v1.PersistentVolumeClaim\<close> and
  \<^verbatim>\<open>v1.PersistentVolume\<close> that the provisioner reads or writes. A Go pointer field that
  may be \<^verbatim>\<open>nil\<close> is an \<open>option\<close>; a Go map is a partial function, and reading a
  missing key gives the zero value of the element type. The arguments themselves
  (\<^verbatim>\<open>options.PVC\<close>, \<^verbatim>\<open>volume\<close>) are taken to be non-nil, as the controller passes them.
\<close>

datatype quantity = Quantity int string

definition zero_quantity :: quantity where
  "zero_quantity = Quantity 0 []"

record label_selector =
  matchLabels :: "(string \<times> string) list"

record persistent_volume_claim =
  pvc_Namespace :: string
  pvc_Selector :: "label_selector option"
  pvc_AccessModes :: "string list"
  pvc_Requests :: "string \<rightharpoonup> quantity"

record volume_options =
  opt_PersistentVolumeReclaimPolicy :: string
  opt_PVName :: string
  opt_PVC :: persistent_volume_claim
  opt_Parameters :: "string \<rightharpoonup> string"
  opt_Tenant :: string
  opt_Stack :: string
  opt_Service :: string

record nfs_volume_source =
  nfs_Server :: string
  nfs_Path :: string
  nfs_ReadOnly :: bool

record object_reference =
  ref_Namespace :: string

record persistent_volume =
  pv_Name :: string
  pv_Labels :: "string \<rightharpoonup> string"
  pv_PersistentVolumeReclaimPolicy :: string
  pv_AccessModes :: "string list"
  pv_Capacity :: "string \<rightharpoonup> quantity"
  pv_NFS :: "nfs_volume_source option"
  pv_ClaimRef :: "object_reference option"

definition inMap :: "string \<Rightarrow> (string \<rightharpoonup> string) \<Rightarrow> bool" where
  "inMap key m = (case m key of None \<Rightarrow> False | Some _ \<Rightarrow> True)"

text \<open>\<^verbatim>\<open>m[key]\<close> on a \<^verbatim>\<open>map[string]string\<close> (also a nil one): the empty string when absent.\<close>

definition index_string :: "(string \<rightharpoonup> string) \<Rightarrow> string \<Rightarrow> string" where
  "index_string m key = (case m key of None \<Rightarrow> [] | Some v \<Rightarrow> v)"

definition index_quantity :: "(string \<rightharpoonup> quantity) \<Rightarrow> string \<Rightarrow> quantity" where
  "index_quantity m key = (case m key of None \<Rightarrow> zero_quantity | Some v \<Rightarrow> v)"

text \<open>\<^verbatim>\<open>v1.ResourceStorage\<close>\<close>

definition ResourceStorage :: string where
  "ResourceStorage = ''storage''"

section \<open>The host: directories, mount table, mount command\<close>

text \<open>
  The provisioner acts on the host through \<^verbatim>\<open>linuxproc.ReadMounts\<close>, \<^verbatim>\<open>os.MkdirAll\<close>,
  \<^verbatim>\<open>exec.Command("mount", ...).Run()\<close> and \<^verbatim>\<open>os.Rename\<close>. The host is a state that
  every operation takes and returns:
  \<^item> \<open>dirs\<close>: the directories that exist, the root \<^verbatim>\<open>/\<close> included, each under its
    cleaned path name. There are no other files and no symbolic links, and a path names
    the directory that \<^verbatim>\<open>path.Clean\<close> of it names: \<^verbatim>\<open>..\<close> is resolved on the name,
    which differs from the system's resolution only for a path that passes through a
    directory that does not exist. What a mounted export contains is not tracked. All
    paths of the provisioner start with \<^verbatim>\<open>/persistentvolumes\<close>; a relative path would
    be resolved against a working directory named \<^verbatim>\<open>.\<close>;
  \<^item> \<open>proc_mounts\<close>: the mount points listed in \<^verbatim>\<open>/proc/mounts\<close>, \<open>None\<close> when the
    file cannot be read;
  \<^item> \<open>mount_calls\<close>: every invocation of the mount command so far, as (device, mount
    point), in order;
  \<^item> \<open>mkdir_denied\<close>, \<open>rename_denied\<close>: the directories (cleaned names) that the host
    refuses to create, or to rename; \<open>mount_refused\<close>: the mount points at which the
    mount command fails. No operation changes them.
  Logging (\<^verbatim>\<open>glog\<close>) is not part of the state.
\<close>

record world =
  dirs :: "string set"
  proc_mounts :: "string list option"
  mount_calls :: "(string \<times> string) list"
  mkdir_denied :: "string set"
  mount_refused :: "string set"
  rename_denied :: "string set"

datatype errno = EACCES | ENOENT | EINVAL | EEXIST | EBUSY

text \<open>
  Go errors.
  \<^item> \<open>New text\<close>: \<^verbatim>\<open>errors.New(text)\<close>, or \<^verbatim>\<open>fmt.Errorf(text)\<close> for a literal text
    without \<^verbatim>\<open>%\<close>; the message is the text.
  \<^item> \<open>Concat text cause\<close>: \<^verbatim>\<open>errors.New(text + cause.Error())\<close>; the message is the
    text followed by the message of the cause.
  \<^item> \<open>Errorf text cause\<close>: \<^verbatim>\<open>fmt.Errorf(text + cause.Error())\<close>, where the text
    followed by the message of the cause is the format string and there are no
    operands. The message is what \<^verbatim>\<open>fmt\<close> makes of that format: the same string when
    the cause's message has no \<^verbatim>\<open>%\<close>, another one otherwise (\<^verbatim>\<open>%2F\<close> becomes
    \<^verbatim>\<open>%!F(MISSING)\<close>). The message itself is not computed here.
  \<^item> \<open>PathError op path errno\<close>, \<open>LinkError op old new errno\<close>: the errors of
    \<^verbatim>\<open>os\<close>; \<open>ExitError status\<close>: the error of \<^verbatim>\<open>exec.Cmd.Run\<close>.
\<close>

datatype error =
    New string
  | Concat string error
  | Errorf string error
  | PathError string string errno
  | LinkError string string string errno
  | ExitError nat

text \<open>A call either returns or panics on a nil pointer.\<close>

datatype 'a go_result = Return 'a | NilPointerPanic

text \<open>The loop of \<^verbatim>\<open>isMounted\<close> over \<^verbatim>\<open>mps.Mounts\<close>.\<close>

primrec mount_listed :: "string list \<Rightarrow> string \<Rightarrow> bool" where
  "mount_listed [] mp = False"
| "mount_listed (m # ms) mp = (if m = mp then True else mount_listed ms mp)"

definition isMounted :: "world \<Rightarrow> string \<Rightarrow> bool" where
  "isMounted w mp = (case proc_mounts w of None \<Rightarrow> False | Some mps \<Rightarrow> mount_listed mps mp)"

text \<open>
  \<open>is_dir w p\<close>: \<^verbatim>\<open>Stat(p)\<close> finds a directory. The empty path names nothing.
\<close>

definition is_dir :: "world \<Rightarrow> string \<Rightarrow> bool" where
  "is_dir w p = (p \<noteq> [] \<and> Clean p \<in> dirs w)"

text \<open>
  \<^verbatim>\<open>os.Mkdir\<close> creates one directory: it fails when the parent of the directory does
  not exist, when the directory exists, and when the host refuses.
\<close>

definition os_Mkdir :: "string \<Rightarrow> world \<Rightarrow> error option \<times> world" where
  "os_Mkdir p w =
     (if p = [] \<or> \<not> is_dir w (path_Dir (Clean p))
        then (Some (PathError ''mkdir'' p ENOENT), w)
      else if is_dir w p then (Some (PathError ''mkdir'' p EEXIST), w)
      else if Clean p \<in> mkdir_denied w then (Some (PathError ''mkdir'' p EACCES), w)
      else (None, w\<lparr>dirs := insert (Clean p) (dirs w)\<rparr>))"

text \<open>
  \<^verbatim>\<open>os.MkdirAll(path)\<close>: nil when \<^verbatim>\<open>Stat(path)\<close> finds a directory. Otherwise it
  skips the trailing separators of the path (up to \<^verbatim>\<open>i\<close>), scans backward over
  the last element (down to \<^verbatim>\<open>j\<close>), calls itself on \<^verbatim>\<open>path[0:j-1]\<close> when
  \<^verbatim>\<open>j > 1\<close> and returns the error of that call, if any; then it calls
  \<^verbatim>\<open>Mkdir(path)\<close>, whose error it returns unless the directory is there after all.
  Directories made before a failure stay.

  \<open>parent_prefix path\<close> is \<^verbatim>\<open>path[0:j-1]\<close>, and empty exactly when \<^verbatim>\<open>j \<le> 1\<close>.
\<close>

definition parent_prefix :: "string \<Rightarrow> string" where
  "parent_prefix p =
     rev (tl (dropWhile (\<lambda>c. c \<noteq> CHR ''/'') (dropWhile (\<lambda>c. c = CHR ''/'') (rev p))))"

definition mkdir_last :: "string \<Rightarrow> world \<Rightarrow> error option \<times> world" where
  "mkdir_last p w =
     (case os_Mkdir p w of
        (None, w1) \<Rightarrow> (None, w1)
      | (Some err, w1) \<Rightarrow> if is_dir w1 p then (None, w1) else (Some err, w1))"

function os_MkdirAll :: "string \<Rightarrow> world \<Rightarrow> error option \<times> world" where
  "os_MkdirAll p w =
     (if is_dir w p then (None, w)
      else if parent_prefix p \<noteq> [] then
        (case os_MkdirAll (parent_prefix p) w of
           (Some err, w1) \<Rightarrow> (Some err, w1)
         | (None, w1) \<Rightarrow> mkdir_last p w1)
      else mkdir_last p w)"
  by pat_completeness auto
termination
proof (relation "measure (\<lambda>(p, w). length p)")
  show "wf (measure (\<lambda>(p, w). length p))" by simp
next
  fix p :: string and w :: world
  assume "parent_prefix p \<noteq> []"
  define r where "r = dropWhile (\<lambda>c. c \<noteq> CHR ''/'') (dropWhile (\<lambda>c. c = CHR ''/'') (rev p))"
  have "length r \<le> length (dropWhile (\<lambda>c. c = CHR ''/'') (rev p))"
    unfolding r_def by (rule length_dropWhile_le)
  also have "\<dots> \<le> length (rev p)" by (rule length_dropWhile_le)
  finally have le: "length r \<le> length p" by simp
  from \<open>parent_prefix p \<noteq> []\<close> have "tl r \<noteq> []" by (simp add: parent_prefix_def r_def)
  then have "r \<noteq> []" by auto
  then have "length (tl r) < length r" by (cases r) simp_all
  with le have "length (parent_prefix p) < length p"
    by (simp add: parent_prefix_def r_def)
  then show "((parent_prefix p, w), (p, w)) \<in> measure (\<lambda>(p, w). length p)" by simp
qed

declare os_MkdirAll.simps [simp del]

text \<open>
  The directory of a path and its parents, as \<^verbatim>\<open>os.MkdirAll\<close> can make them: the
  whole path and every non-empty part of it that ends before a separator, cleaned.
\<close>

definition mkdir_names :: "string \<Rightarrow> string set" where
  "mkdir_names p =
     set (map (\<lambda>k. Clean (take k p))
            (filter (\<lambda>k. k = length p \<or> p ! k = CHR ''/'') [1..<Suc (length p)]))"

text \<open>
  The mount command: the invocation is recorded; when the host refuses it the command
  exits with status 32, otherwise the mount point is listed in the mount table, under the
  path that the command was given.
\<close>

definition run_mount :: "string \<Rightarrow> string \<Rightarrow> world \<Rightarrow> error option \<times> world" where
  "run_mount device mp w =
     (let w' = w\<lparr>mount_calls := mount_calls w @ [(device, mp)]\<rparr> in
      if mp \<in> mount_refused w then (Some (ExitError 32), w')
      else (None, w'\<lparr>proc_mounts := map_option (\<lambda>mps. mps @ [mp]) (proc_mounts w)\<rparr>))"

text \<open>
  \<^verbatim>\<open>os.Rename\<close> of a directory. Go looks at the new name first: when it is an
  existing directory, the error is \<^verbatim>\<open>ENOENT\<close> if the old name does not exist and
  \<^verbatim>\<open>EEXIST\<close> otherwise, whether the directory has entries or not (two different
  spellings of one directory excepted, which the system call then leaves alone). Then the
  system call: \<^verbatim>\<open>ENOENT\<close> when the old name or the parent of the new name does not
  exist, \<^verbatim>\<open>EBUSY\<close> when the old name is the root (or ends in \<^verbatim>\<open>.\<close> or \<^verbatim>\<open>..\<close>),
  \<^verbatim>\<open>EINVAL\<close> when the new name is inside the old directory, \<^verbatim>\<open>EACCES\<close> when the
  host refuses. Otherwise the directory moves with everything below it. The error
  carries the names as given.
\<close>

definition below :: "string \<Rightarrow> string \<Rightarrow> bool" where
  "below d p = (length d < length p \<and> take (Suc (length d)) p = d @ ''/'')"

definition moved :: "string \<Rightarrow> string \<Rightarrow> string \<Rightarrow> string" where
  "moved old new p =
     (if p = old then new else if below old p then new @ drop (length old) p else p)"

definition os_Rename :: "string \<Rightarrow> string \<Rightarrow> world \<Rightarrow> error option \<times> world" where
  "os_Rename old new w =
     (if \<not> is_dir w old then (Some (LinkError ''rename'' old new ENOENT), w)
      else if is_dir w new then
        (if new = old \<or> Clean new \<noteq> Clean old
           then (Some (LinkError ''rename'' old new EEXIST), w)
         else (None, w))
      else if new = [] \<or> \<not> is_dir w (path_Dir (Clean new))
        then (Some (LinkError ''rename'' old new ENOENT), w)
      else if last (elements (Clean old)) \<in> {[], ''.'', ''..''}
        then (Some (LinkError ''rename'' old new EBUSY), w)
      else if below (Clean old) (Clean new)
        then (Some (LinkError ''rename'' old new EINVAL), w)
      else if Clean old \<in> rename_denied w
        then (Some (LinkError ''rename'' old new EACCES), w)
      else (None, w\<lparr>dirs := moved (Clean old) (Clean new) ` dirs w\<rparr>))"

section \<open>The provisioner\<close>

text \<open>
  \<^verbatim>\<open>ensureMount(server, path)\<close> of \<^verbatim>\<open>provisioner.go\<close> returns the mount point and an
  error; \<^verbatim>\<open>ensureMount(server, path, mp)\<close> of the second variant returns the error only.
\<close>

definition ensureMount :: "string \<Rightarrow> string \<Rightarrow> world \<Rightarrow> (string \<times> error option) \<times> world" where
  "ensureMount server path w =
     (let mp = mountPoint server path in
      if isMounted w mp then ((mp, None), w)
      else case os_MkdirAll mp w of
             (Some err, w1) \<Rightarrow> ((mp, Some err), w1)
           | (None, w1) \<Rightarrow>
               (case run_mount (server @ '':'' @ path) mp w1 of (r, w2) \<Rightarrow> ((mp, r), w2)))"

definition ensureMount_ns :: "string \<Rightarrow> string \<Rightarrow> string \<Rightarrow> world \<Rightarrow> error option \<times> world" where
  "ensureMount_ns server path mp w =
     (if isMounted w mp then (None, w)
      else case os_MkdirAll mp w of
             (Some err, w1) \<Rightarrow> (Some err, w1)
           | (None, w1) \<Rightarrow> run_mount (server @ '':'' @ path) mp w1)"

definition Provision :: "volume_options \<Rightarrow> world \<Rightarrow> (error + persistent_volume) \<times> world" where
  "Provision options w =
     (if pvc_Selector (opt_PVC options) \<noteq> None
        then (Inl (New ''claim Selector is not supported''), w)
      else let params = opt_Parameters options in
      if \<not> (inMap ''nfsPath'' params \<and> inMap ''nfsServer'' params)
        then (Inl (New ''nfsPath and nfsServer parameters required''), w)
      else let server = index_string params ''nfsServer'';
               path = index_string params ''nfsPath'' in
      case ensureMount server path w of
        ((mp, Some err), w1) \<Rightarrow> (Inl (Errorf ''unable to mount NFS volume: '' err), w1)
      | ((mp, None), w1) \<Rightarrow>
          let name = pvName (opt_Tenant options) (opt_Stack options) (opt_Service options)
                       (opt_PVName options) in
          (case os_MkdirAll (filepath_Join [mp, name]) w1 of
             (Some err, w2) \<Rightarrow>
               (Inl (Concat ''unable to create directory to provision new pv: '' err), w2)
           | (None, w2) \<Rightarrow>
               (Inr \<lparr> pv_Name = opt_PVName options,
                      pv_Labels = [''io.wise2c.tenant'' \<mapsto> opt_Tenant options,
                                   ''io.wise2c.stack'' \<mapsto> opt_Stack options,
                                   ''io.wise2c.service'' \<mapsto> opt_Service options],
                      pv_PersistentVolumeReclaimPolicy = opt_PersistentVolumeReclaimPolicy options,
                      pv_AccessModes = pvc_AccessModes (opt_PVC options),
                      pv_Capacity = [ResourceStorage \<mapsto>
                        index_quantity (pvc_Requests (opt_PVC options)) ResourceStorage],
                      pv_NFS = Some \<lparr> nfs_Server = server,
                                      nfs_Path = filepath_Join [path, name],
                                      nfs_ReadOnly = False \<rparr>,
                      pv_ClaimRef = None \<rparr>, w2)))"

definition Provision_ns :: "volume_options \<Rightarrow> world \<Rightarrow> (error + persistent_volume) \<times> world" where
  "Provision_ns options w =
     (if pvc_Selector (opt_PVC options) \<noteq> None
        then (Inl (New ''claim Selector is not supported''), w)
      else let params = opt_Parameters options in
      if \<not> (inMap ''nfsPath'' params \<and> inMap ''nfsServer'' params)
        then (Inl (New ''nfsPath and nfsServer parameters required''), w)
      else let server = index_string params ''nfsServer'';
               path = index_string params ''nfsPath'';
               mp = filepath_Join [mountPath, server] in
      case ensureMount_ns server path mp w of
        (Some err, w1) \<Rightarrow> (Inl (Errorf ''unable to mount NFS volume: '' err), w1)
      | (None, w1) \<Rightarrow>
          let name = pvName_ns (pvc_Namespace (opt_PVC options)) (opt_PVName options) in
          (case os_MkdirAll (filepath_Join [mp, name]) w1 of
             (Some err, w2) \<Rightarrow>
               (Inl (Concat ''unable to create directory to provision new pv: '' err), w2)
           | (None, w2) \<Rightarrow>
               (Inr \<lparr> pv_Name = opt_PVName options,
                      pv_Labels = Map.empty,
                      pv_PersistentVolumeReclaimPolicy = opt_PersistentVolumeReclaimPolicy options,
                      pv_AccessModes = pvc_AccessModes (opt_PVC options),
                      pv_Capacity = [ResourceStorage \<mapsto>
                        index_quantity (pvc_Requests (opt_PVC options)) ResourceStorage],
                      pv_NFS = Some \<lparr> nfs_Server = server,
                                      nfs_Path = filepath_Join [path, name],
                                      nfs_ReadOnly = False \<rparr>,
                      pv_ClaimRef = None \<rparr>, w2)))"

text \<open>
  \<^verbatim>\<open>Delete\<close> reads \<^verbatim>\<open>volume.Spec.PersistentVolumeSource.NFS.Server\<close> first: a nil
  \<^verbatim>\<open>NFS\<close> panics before anything is done. The second variant reads
  \<^verbatim>\<open>volume.Spec.ClaimRef.Namespace\<close> after \<^verbatim>\<open>ensureMount\<close> has returned without error.
\<close>

definition Delete :: "persistent_volume \<Rightarrow> world \<Rightarrow> error option go_result \<times> world" where
  "Delete volume w =
     (case pv_NFS volume of
        None \<Rightarrow> (NilPointerPanic, w)
      | Some nfs \<Rightarrow>
          let server = nfs_Server nfs;
              path = path_Dir (nfs_Path nfs) in
          (case ensureMount server path w of
             ((mp, Some err), w1) \<Rightarrow> (Return (Some err), w1)
           | ((mp, None), w1) \<Rightarrow>
               let tenant = index_string (pv_Labels volume) ''io.wise2c.tenant'';
                   stack = index_string (pv_Labels volume) ''io.wise2c.stack'';
                   service = index_string (pv_Labels volume) ''io.wise2c.service'';
                   name = pvName tenant stack service (pv_Name volume);
                   oldPath = filepath_Join [mp, name];
                   archivePath = filepath_Join [mp, ''archived-'' @ name] in
               (case os_Rename oldPath archivePath w1 of (r, w2) \<Rightarrow> (Return r, w2))))"

definition Delete_ns :: "persistent_volume \<Rightarrow> world \<Rightarrow> error option go_result \<times> world" where
  "Delete_ns volume w =
     (case pv_NFS volume of
        None \<Rightarrow> (NilPointerPanic, w)
      | Some nfs \<Rightarrow>
          let server = nfs_Server nfs;
              path = path_Dir (nfs_Path nfs) in
          (case ensureMount_ns server path (filepath_Join [mountPath, server]) w of
             (Some err, w1) \<Rightarrow> (Return (Some err), w1)
           | (None, w1) \<Rightarrow>
               (case pv_ClaimRef volume of
                  None \<Rightarrow> (NilPointerPanic, w1)
                | Some ref \<Rightarrow>
                    let name = pvName_ns (ref_Namespace ref) (pv_Name volume);
                        oldPath = filepath_Join [mountPath, server, name];
                        archivePath = filepath_Join [mountPath, server, ''archived-'' @ name] in
                    (case os_Rename oldPath archivePath w1 of (r, w2) \<Rightarrow> (Return r, w2)))))"

subsection \<open>Names for parts of a request and of a descriptor\<close>

text \<open>
  \<open>accepted options server path\<close>: the request passes both checks of \<^verbatim>\<open>Provision\<close> and
  its parameters name this server and remote path. \<open>volume_name\<close> is the \<^verbatim>\<open>pvName\<close>
  that \<^verbatim>\<open>Provision\<close> computes from the request, \<open>descriptor_name\<close> the one that
  \<^verbatim>\<open>Delete\<close> computes from the labels and the name of the descriptor; \<open>_ns\<close> for
  the second variant.
\<close>

definition accepted :: "volume_options \<Rightarrow> string \<Rightarrow> string \<Rightarrow> bool" where
  "accepted options server path =
     (pvc_Selector (opt_PVC options) = None
      \<and> opt_Parameters options ''nfsServer'' = Some server
      \<and> opt_Parameters options ''nfsPath'' = Some path)"

definition volume_name :: "volume_options \<Rightarrow> string" where
  "volume_name options =
     pvName (opt_Tenant options) (opt_Stack options) (opt_Service options) (opt_PVName options)"

definition volume_name_ns :: "volume_options \<Rightarrow> string" where
  "volume_name_ns options = pvName_ns (pvc_Namespace (opt_PVC options)) (opt_PVName options)"

definition descriptor_name :: "persistent_volume \<Rightarrow> string" where
  "descriptor_name volume =
     pvName (index_string (pv_Labels volume) ''io.wise2c.tenant'')
       (index_string (pv_Labels volume) ''io.wise2c.stack'')
       (index_string (pv_Labels volume) ''io.wise2c.service'') (pv_Name volume)"

section \<open>Example inputs\<close>

text \<open>
  A host with nothing mounted and no directory besides the root, a claim for 5Gi, and
  the request of the specification's end-to-end example: server \<^verbatim>\<open>nfs1\<close>, remote path
  \<^verbatim>\<open>/export\<close>, volume name \<^verbatim>\<open>pv-1\<close>.
\<close>

definition empty_host :: world where
  "empty_host = \<lparr>dirs = {''/''}, proc_mounts = Some [], mount_calls = [], mkdir_denied = {},
     mount_refused = {}, rename_denied = {}\<rparr>"

definition claim_5Gi :: persistent_volume_claim where
  "claim_5Gi = \<lparr>pvc_Namespace = ''default'', pvc_Selector = None,
     pvc_AccessModes = [''ReadWriteMany''],
     pvc_Requests = [''storage'' \<mapsto> Quantity 5 ''Gi'']\<rparr>"

definition request_pv1 :: volume_options where
  "request_pv1 = \<lparr>opt_PersistentVolumeReclaimPolicy = ''Delete'', opt_PVName = ''pv-1'',
     opt_PVC = claim_5Gi,
     opt_Parameters = [''nfsServer'' \<mapsto> ''nfs1'', ''nfsPath'' \<mapsto> ''/export''],
     opt_Tenant = ''acme'', opt_Stack = ''web'', opt_Service = ''svc''\<rparr>"

text \<open>The same request with a selector on the claim and an empty parameters block.\<close>

definition selector_request :: volume_options where
  "selector_request =
     request_pv1\<lparr>opt_PVC := claim_5Gi\<lparr>pvc_Selector := Some \<lparr>matchLabels = []\<rparr>\<rparr>,
                 opt_Parameters := Map.empty\<rparr>"

text \<open>The request without the \<^verbatim>\<open>nfsPath\<close> parameter.\<close>

definition request_no_path :: volume_options where
  "request_no_path = request_pv1\<lparr>opt_Parameters := [''nfsServer'' \<mapsto> ''nfs1'']\<rparr>"

text \<open>
  The descriptor and the host that \<^verbatim>\<open>Provision\<close> produces for \<open>request_pv1\<close> on the empty
  host, in \<^verbatim>\<open>provisioner.go\<close> and in the second variant.
\<close>

definition pv1 :: persistent_volume where
  "pv1 = \<lparr> pv_Name = ''pv-1'',
           pv_Labels = [''io.wise2c.tenant'' \<mapsto> ''acme'', ''io.wise2c.stack'' \<mapsto> ''web'',
                        ''io.wise2c.service'' \<mapsto> ''svc''],
           pv_PersistentVolumeReclaimPolicy = ''Delete'',
           pv_AccessModes = [''ReadWriteMany''],
           pv_Capacity = [''storage'' \<mapsto> Quantity 5 ''Gi''],
           pv_NFS = Some \<lparr> nfs_Server = ''nfs1'', nfs_Path = ''/export/acme-web-svc-pv-1'',
                           nfs_ReadOnly = False \<rparr>,
           pv_ClaimRef = None \<rparr>"

definition provisioned_host :: world where
  "provisioned_host = \<lparr>dirs = {''/'', ''/persistentvolumes'', ''/persistentvolumes/nfs1'',
        ''/persistentvolumes/nfs1/%2Fexport'',
        ''/persistentvolumes/nfs1/%2Fexport/acme-web-svc-pv-1''},
     proc_mounts = Some [''/persistentvolumes/nfs1/%2Fexport''],
     mount_calls = [(''nfs1:/export'', ''/persistentvolumes/nfs1/%2Fexport'')],
     mkdir_denied = {}, mount_refused = {}, rename_denied = {}\<rparr>"

definition pv1_ns :: persistent_volume where
  "pv1_ns = \<lparr> pv_Name = ''pv-1'',
           pv_Labels = Map.empty,
           pv_PersistentVolumeReclaimPolicy = ''Delete'',
           pv_AccessModes = [''ReadWriteMany''],
           pv_Capacity = [''storage'' \<mapsto> Quantity 5 ''Gi''],
           pv_NFS = Some \<lparr> nfs_Server = ''nfs1'', nfs_Path = ''/export/default-pv-1'',
                           nfs_ReadOnly = False \<rparr>,
           pv_ClaimRef = None \<rparr>"

definition provisioned_host_ns :: world where
  "provisioned_host_ns = \<lparr>dirs = {''/'', ''/persistentvolumes'', ''/persistentvolumes/nfs1'',
        ''/persistentvolumes/nfs1/default-pv-1''},
     proc_mounts = Some [''/persistentvolumes/nfs1''],
     mount_calls = [(''nfs1:/export'', ''/persistentvolumes/nfs1'')],
     mkdir_denied = {}, mount_refused = {}, rename_denied = {}\<rparr>"

text \<open>
  The hosts after \<^verbatim>\<open>ensureMount\<close> of \<^verbatim>\<open>nfs1:/export\<close> on the empty host, in both
  variants, and an empty host that refuses a mount at the second variant's mount point.
\<close>

definition mounted_host :: world where
  "mounted_host = \<lparr>dirs = {''/'', ''/persistentvolumes'', ''/persistentvolumes/nfs1'',
        ''/persistentvolumes/nfs1/%2Fexport''},
     proc_mounts = Some [''/persistentvolumes/nfs1/%2Fexport''],
     mount_calls = [(''nfs1:/export'', ''/persistentvolumes/nfs1/%2Fexport'')],
     mkdir_denied = {}, mount_refused = {}, rename_denied = {}\<rparr>"

definition mounted_host_ns :: world where
  "mounted_host_ns = \<lparr>dirs = {''/'', ''/persistentvolumes'', ''/persistentvolumes/nfs1''},
     proc_mounts = Some [''/persistentvolumes/nfs1''],
     mount_calls = [(''nfs1:/export'', ''/persistentvolumes/nfs1'')],
     mkdir_denied = {}, mount_refused = {}, rename_denied = {}\<rparr>"

definition refusing_host_ns :: world where
  "refusing_host_ns = empty_host\<lparr>mount_refused := {''/persistentvolumes/nfs1''}\<rparr>"

text \<open>
  The hosts after \<^verbatim>\<open>Delete\<close> has archived the directory of \<open>pv1\<close>, and the second
  variant's descriptor with the \<^verbatim>\<open>ClaimRef\<close> that the controller sets before it stores
  the volume.
\<close>

definition archived_host :: world where
  "archived_host = \<lparr>dirs = {''/'', ''/persistentvolumes'', ''/persistentvolumes/nfs1'',
        ''/persistentvolumes/nfs1/%2Fexport'',
        ''/persistentvolumes/nfs1/%2Fexport/archived-acme-web-svc-pv-1''},
     proc_mounts = Some [''/persistentvolumes/nfs1/%2Fexport''],
     mount_calls = [(''nfs1:/export'', ''/persistentvolumes/nfs1/%2Fexport'')],
     mkdir_denied = {}, mount_refused = {}, rename_denied = {}\<rparr>"

definition pv1_ns_bound :: persistent_volume where
  "pv1_ns_bound = pv1_ns\<lparr>pv_ClaimRef := Some \<lparr>ref_Namespace = ''default''\<rparr>\<rparr>"

definition archived_host_ns :: world where
  "archived_host_ns = \<lparr>dirs = {''/'', ''/persistentvolumes'', ''/persistentvolumes/nfs1'',
        ''/persistentvolumes/nfs1/archived-default-pv-1''},
     proc_mounts = Some [''/persistentvolumes/nfs1''],
     mount_calls = [(''nfs1:/export'', ''/persistentvolumes/nfs1'')],
     mkdir_denied = {}, mount_refused = {}, rename_denied = {}\<rparr>"

text \<open>
  A second request on the same server for another export, \<^verbatim>\<open>/other\<close>; the request of
  the example with a trailing slash on the remote path; a host that refuses the mount at
  the mount point of \<^verbatim>\<open>provisioner.go\<close>.
\<close>

definition request_pv2_other :: volume_options where
  "request_pv2_other =
     request_pv1\<lparr>opt_PVName := ''pv-2'',
                 opt_Parameters := [''nfsServer'' \<mapsto> ''nfs1'', ''nfsPath'' \<mapsto> ''/other'']\<rparr>"

definition request_slash :: volume_options where
  "request_slash =
     request_pv1\<lparr>opt_Parameters := [''nfsServer'' \<mapsto> ''nfs1'', ''nfsPath'' \<mapsto> ''/export/'']\<rparr>"




text \<open>
  The host after Provision of \<open>request_slash\<close> on the empty host: the mount point
  carries the escaped trailing slash.
\<close>

definition provisioned_host_slash :: world where
  "provisioned_host_slash = \<lparr>dirs = {''/'', ''/persistentvolumes'', ''/persistentvolumes/nfs1'',
        ''/persistentvolumes/nfs1/%2Fexport%2F'',
        ''/persistentvolumes/nfs1/%2Fexport%2F/acme-web-svc-pv-1''},
     proc_mounts = Some [''/persistentvolumes/nfs1/%2Fexport%2F''],
     mount_calls = [(''nfs1:/export/'', ''/persistentvolumes/nfs1/%2Fexport%2F'')],
     mkdir_denied = {}, mount_refused = {}, rename_denied = {}\<rparr>"

text \<open>The request of the example with the volume name \<^verbatim>\<open>/..\<close>.\<close>

definition request_dotdot :: volume_options where
  "request_dotdot = request_pv1\<lparr>opt_PVName := ''/..''\<rparr>"

section \<open>Path lemmas\<close>

lemma elements_nonempty: "elements p \<noteq> []"
  by (induction p) (auto split: list.splits)

lemma elements_no_slash: "CHR ''/'' \<notin> set e \<Longrightarrow> elements e = [e]"
  by (induction e) auto

lemma elements_append_slash: "elements (a @ CHR ''/'' # b) = elements a @ elements b"
proof (induction a)
  case Nil
  show ?case by simp
next
  case (Cons c cs)
  then show ?case using elements_nonempty [of cs]
    by (cases "elements cs") (auto split: list.splits)
qed

lemma rooted_append: "m \<noteq> [] \<Longrightarrow> rooted (m @ x) = rooted m"
  by (cases m) (simp_all add: rooted_def)

lemma clean_step_element: "path_element e \<Longrightarrow> clean_step r out e = out @ [e]"
  by (simp add: clean_step_def path_element_def)

lemma clean_elements_append_element:
  assumes "m \<noteq> []" "path_element e"
  shows "clean_elements (m @ CHR ''/'' # e) = clean_elements m @ [e]"
proof -
  from assms(2) have "elements e = [e]"
    by (simp add: elements_no_slash path_element_def)
  then show ?thesis using assms
    by (simp add: clean_elements_def elements_append_slash rooted_append clean_step_element)
qed

lemma join_slash_snoc:
  "join_slash (xs @ [e]) = (if xs = [] then e else join_slash xs @ CHR ''/'' # e)"
  by (induction xs rule: join_slash.induct) simp_all

lemma Clean_append_element:
  assumes "m \<noteq> []" "path_element e"
  shows "Clean (m @ CHR ''/'' # e) = join_base m @ e"
  using assms
  by (simp add: Clean_def join_base_def clean_elements_append_element rooted_append
      join_slash_snoc)

lemma Join_element:
  assumes "m \<noteq> []" "path_element e"
  shows "filepath_Join [m, e] = join_base m @ e"
  using assms Clean_append_element [OF assms] by simp

lemma split_dir_no_slash: "CHR ''/'' \<notin> set e \<Longrightarrow> split_dir e = []"
  by (induction e) auto

lemma split_dir_append:
  assumes "CHR ''/'' \<notin> set e"
  shows "split_dir (b @ CHR ''/'' # e) = b @ ''/''"
  using assms by (induction b) (auto simp add: split_dir_no_slash)

lemma clean_elements_trailing_slash:
  "m \<noteq> [] \<Longrightarrow> clean_elements (m @ ''/'') = clean_elements m"
  using elements_append_slash [of m "[]"]
  by (simp add: clean_elements_def rooted_append clean_step_def)

lemma Clean_trailing_slash: "m \<noteq> [] \<Longrightarrow> Clean (m @ ''/'') = Clean m"
  by (simp add: Clean_def clean_elements_trailing_slash rooted_append)

lemma clean_step_no_empty: "[] \<notin> set out \<Longrightarrow> [] \<notin> set (clean_step r out e)"
  by (auto simp add: clean_step_def dest: in_set_butlastD)

lemma foldl_clean_step_no_empty:
  "[] \<notin> set out \<Longrightarrow> [] \<notin> set (foldl (clean_step r) out es)"
  by (induction es arbitrary: out) (simp_all add: clean_step_no_empty)

lemma clean_elements_no_empty: "[] \<notin> set (clean_elements p)"
  by (simp add: clean_elements_def foldl_clean_step_no_empty)

lemma join_slash_nonempty: "xs \<noteq> [] \<Longrightarrow> [] \<notin> set xs \<Longrightarrow> join_slash xs \<noteq> []"
  by (induction xs rule: join_slash.induct) simp_all

lemma Clean_nonempty: "Clean p \<noteq> []"
  using join_slash_nonempty [OF _ clean_elements_no_empty, of p]
  by (simp add: Clean_def)

lemma join_base_shape: "join_base m = [] \<or> (\<exists>b. join_base m = b @ ''/'')"
  by (auto simp add: join_base_def)

lemma Clean_join_base:
  assumes "Clean p = p"
  shows "Clean (join_base p) = p"
proof -
  from assms have ne: "p \<noteq> []" using Clean_nonempty [of p] by auto
  show ?thesis
  proof (cases "clean_elements p = []")
    case True
    show ?thesis
    proof (cases "rooted p")
      case True
      with \<open>clean_elements p = []\<close> ne assms have "p = ''/''" by (simp add: Clean_def)
      moreover from True \<open>clean_elements p = []\<close> have "join_base p = ''/''" by (simp add: join_base_def)
      ultimately show ?thesis using assms by simp
    next
      case False
      with \<open>clean_elements p = []\<close> ne assms have "p = ''.''" by (simp add: Clean_def)
      moreover from False \<open>clean_elements p = []\<close> have "join_base p = []" by (simp add: join_base_def)
      ultimately show ?thesis by (simp add: Clean_def)
    qed
  next
    case False
    with ne assms have "join_base p = p @ ''/''"
      by (auto simp add: join_base_def Clean_def split: if_splits)
    with ne assms show ?thesis by (simp add: Clean_trailing_slash)
  qed
qed

lemma Dir_Join:
  assumes "Clean p = p" "path_element e"
  shows "path_Dir (filepath_Join [p, e]) = p"
proof -
  from assms have ne: "p \<noteq> []" using Clean_nonempty [of p] by auto
  from assms(2) have ns: "CHR ''/'' \<notin> set e" by (simp add: path_element_def)
  have j: "filepath_Join [p, e] = join_base p @ e" by (rule Join_element [OF ne assms(2)])
  have "split_dir (join_base p @ e) = join_base p"
    using join_base_shape [of p] split_dir_append [OF ns] split_dir_no_slash [OF ns] by auto
  with j show ?thesis by (simp add: path_Dir_def Clean_join_base [OF assms(1)])
qed

lemma pvName_element:
  assumes "CHR ''/'' \<notin> set t \<union> set s \<union> set v \<union> set n"
  shows "path_element (pvName t s v n)" and "path_element (''archived-'' @ pvName t s v n)"
proof -
  have "CHR ''-'' \<in> set (pvName t s v n)" by (simp add: pvName_def)
  then have "pvName t s v n \<noteq> []" "pvName t s v n \<noteq> ''.''" "pvName t s v n \<noteq> ''..''"
    by auto
  with assms show "path_element (pvName t s v n)" by (simp add: path_element_def pvName_def)
  with assms show "path_element (''archived-'' @ pvName t s v n)" by (simp add: path_element_def)
qed

lemma pvName_ns_element:
  assumes "CHR ''/'' \<notin> set ns \<union> set n"
  shows "path_element (pvName_ns ns n)" and "path_element (''archived-'' @ pvName_ns ns n)"
proof -
  have "CHR ''-'' \<in> set (pvName_ns ns n)" by (simp add: pvName_ns_def)
  then have "pvName_ns ns n \<noteq> []" "pvName_ns ns n \<noteq> ''.''" "pvName_ns ns n \<noteq> ''..''"
    by auto
  with assms show "path_element (pvName_ns ns n)" by (simp add: path_element_def pvName_ns_def)
  with assms show "path_element (''archived-'' @ pvName_ns ns n)" by (simp add: path_element_def)
qed


lemma elements_slash_free: "\<forall>e \<in> set (elements p). CHR ''/'' \<notin> set e"
  by (induction p) (auto split: list.splits)

lemma canonical_Nil: "canonical r []"
  by (simp add: canonical_def)

lemma canonical_step:
  assumes "canonical r out" "CHR ''/'' \<notin> set e"
  shows "canonical r (clean_step r out e)"
proof -
  from assms(1) obtain k rest where o: "out = replicate k ''..'' @ rest"
    and el: "\<forall>e \<in> set rest. path_element e" and rk: "r \<longrightarrow> k = 0"
    by (auto simp add: canonical_def)
  consider (skip) "e = [] \<or> e = ''.''" | (dotdot) "e = ''..''" | (elem) "path_element e"
    using assms(2) by (auto simp add: path_element_def)
  then show ?thesis
  proof cases
    case skip
    then show ?thesis using assms(1) by (auto simp add: clean_step_def)
  next
    case elem
    then have "clean_step r out e = replicate k ''..'' @ (rest @ [e])"
      by (simp add: clean_step_element o)
    moreover have "\<forall>x \<in> set (rest @ [e]). path_element x" using el elem by simp
    ultimately show ?thesis using rk unfolding canonical_def by blast
  next
    case dotdot
    show ?thesis
    proof (cases "rest = []")
      case True
      then have out: "out = replicate k ''..''" using o by simp
      then have "out = [] \<or> last out = ''..''" by (cases k) simp_all
      then have "clean_step r out e = (if r then out else out @ [''..''])"
        using dotdot by (auto simp add: clean_step_def)
      moreover have "out @ [''..''] = replicate (Suc k) ''..'' @ []"
        using out by (simp add: replicate_append_same)
      ultimately show ?thesis
      proof (cases r)
        case True
        with \<open>clean_step r out e = (if r then out else out @ [''..''])\<close> assms(1)
        show ?thesis by simp
      next
        case False
        with \<open>clean_step r out e = (if r then out else out @ [''..''])\<close>
          \<open>out @ [''..''] = replicate (Suc k) ''..'' @ []\<close>
        have "clean_step r out e = replicate (Suc k) ''..'' @ []" by simp
        moreover have "\<forall>x \<in> set ([] :: string list). path_element x" by simp
        ultimately show ?thesis using False unfolding canonical_def by blast
      qed
    next
      case False
      then have "last out = last rest" "last rest \<in> set rest" using o by simp_all
      then have "last out \<noteq> ''..''" using el by (auto simp add: path_element_def)
      moreover have "out \<noteq> []" using False o by simp
      ultimately have "clean_step r out e = butlast out"
        using dotdot by (simp add: clean_step_def)
      also have "\<dots> = replicate k ''..'' @ butlast rest"
        using False o by (simp add: butlast_append)
      finally show ?thesis using el rk unfolding canonical_def
        by (metis in_set_butlastD)
    qed
  qed
qed

lemma canonical_foldl:
  "canonical r out \<Longrightarrow> \<forall>e \<in> set es. CHR ''/'' \<notin> set e \<Longrightarrow>
   canonical r (foldl (clean_step r) out es)"
  by (induction es arbitrary: out) (simp_all add: canonical_step)

lemma canonical_clean_elements: "canonical (rooted p) (clean_elements p)"
  unfolding clean_elements_def
  by (rule canonical_foldl [OF canonical_Nil elements_slash_free])

lemma foldl_clean_step_elements:
  "\<forall>e \<in> set es. path_element e \<Longrightarrow> foldl (clean_step r) out es = out @ es"
  by (induction es arbitrary: out) (simp_all add: clean_step_element)

lemma foldl_clean_step_dotdots:
  "foldl (clean_step False) (replicate j ''..'') (replicate k ''..'') = replicate (j + k) ''..''"
proof (induction k arbitrary: j)
  case 0
  show ?case by simp
next
  case (Suc k)
  have "replicate j ''..'' = [] \<or> last (replicate j ''..'') = ''..''" by (cases j) simp_all
  then have "clean_step False (replicate j ''..'') ''..'' = replicate (Suc j) ''..''"
    by (auto simp add: clean_step_def replicate_append_same)
  then show ?case using Suc [of "Suc j"] by simp
qed

lemma foldl_clean_step_canonical:
  assumes "canonical r out"
  shows "foldl (clean_step r) [] out = out"
proof -
  from assms obtain k rest where o: "out = replicate k ''..'' @ rest"
    and el: "\<forall>e \<in> set rest. path_element e" and rk: "r \<longrightarrow> k = 0"
    by (auto simp add: canonical_def)
  show ?thesis
  proof (cases r)
    case True
    with rk o el show ?thesis by (simp add: foldl_clean_step_elements)
  next
    case False
    have "foldl (clean_step False) [] (replicate k ''..'') = replicate k ''..''"
      using foldl_clean_step_dotdots [of 0 k] by simp
    with False o el show ?thesis by (simp add: foldl_clean_step_elements)
  qed
qed

lemma canonical_slash_free:
  assumes "canonical r out"
  shows "\<forall>e \<in> set out. CHR ''/'' \<notin> set e \<and> e \<noteq> []"
proof
  fix e assume e: "e \<in> set out"
  from assms obtain k rest where o: "out = replicate k ''..'' @ rest"
    and el: "\<forall>e \<in> set rest. path_element e"
    unfolding canonical_def by blast
  from e o have "e = ''..'' \<or> e \<in> set rest" by auto
  then show "CHR ''/'' \<notin> set e \<and> e \<noteq> []"
  proof
    assume "e = ''..''"
    then show ?thesis by simp
  next
    assume "e \<in> set rest"
    with el have "path_element e" by simp
    then show ?thesis by (simp add: path_element_def)
  qed
qed

lemma elements_join_slash:
  "out \<noteq> [] \<Longrightarrow> \<forall>e \<in> set out. CHR ''/'' \<notin> set e \<Longrightarrow> elements (join_slash out) = out"
proof (induction out rule: join_slash.induct)
  case 1
  then show ?case by simp
next
  case (2 e)
  then show ?case by (simp add: elements_no_slash)
next
  case (3 e e' es)
  then have "elements (join_slash (e' # es)) = e' # es" by simp
  moreover have "elements e = [e]" using 3 by (simp add: elements_no_slash)
  ultimately show ?case using elements_append_slash [of e "join_slash (e' # es)"] by simp
qed

lemma rooted_join_slash:
  assumes "out \<noteq> []" "\<forall>e \<in> set out. CHR ''/'' \<notin> set e \<and> e \<noteq> []"
  shows "\<not> rooted (join_slash out)"
proof -
  from assms obtain e es where o: "out = e # es" by (cases out) auto
  with assms obtain c cs where e: "e = c # cs" and "c \<noteq> CHR ''/''" by (cases e) auto
  then show ?thesis using o by (cases es) (simp_all add: rooted_def)
qed

lemma clean_elements_eq:
  "clean_elements q = foldl (clean_step (rooted q)) [] (elements q)"
  by (simp add: clean_elements_def)

lemma Clean_cases:
  assumes "p \<noteq> []"
  shows "rooted p \<Longrightarrow> Clean p = CHR ''/'' # join_slash (clean_elements p)"
    and "\<not> rooted p \<Longrightarrow> clean_elements p = [] \<Longrightarrow> Clean p = ''.''"
    and "\<not> rooted p \<Longrightarrow> clean_elements p \<noteq> [] \<Longrightarrow> Clean p = join_slash (clean_elements p)"
  using assms by (simp_all add: Clean_def)

lemma rooted_Clean:
  assumes "p \<noteq> []"
  shows "rooted (Clean p) = rooted p"
proof (cases "rooted p")
  case True
  then show ?thesis using Clean_cases(1) [OF assms] by (simp add: rooted_def)
next
  case nr: False
  show ?thesis
  proof (cases "clean_elements p = []")
    case True
    then show ?thesis using nr Clean_cases(2) [OF assms] by (simp add: rooted_def)
  next
    case False
    have "\<not> rooted (join_slash (clean_elements p))"
      by (rule rooted_join_slash [OF False canonical_slash_free [OF canonical_clean_elements]])
    then show ?thesis using nr False Clean_cases(3) [OF assms] by simp
  qed
qed

lemma clean_elements_Clean: "clean_elements (Clean p) = clean_elements p"
proof (cases "p = []")
  case True
  have "clean_elements ''.'' = []"
    by (simp add: clean_elements_eq clean_step_def rooted_def)
  moreover have "clean_elements [] = []"
    by (simp add: clean_elements_eq clean_step_def rooted_def)
  ultimately show ?thesis using True by (simp add: Clean_def)
next
  case ne: False
  define out where "out = clean_elements p"
  have can: "canonical (rooted p) out"
    unfolding out_def by (rule canonical_clean_elements)
  have sf: "\<forall>e \<in> set out. CHR ''/'' \<notin> set e" using canonical_slash_free [OF can] by simp
  have fold: "foldl (clean_step (rooted p)) [] out = out"
    by (rule foldl_clean_step_canonical [OF can])
  show ?thesis
  proof (cases "out = []")
    case True
    show ?thesis
    proof (cases "rooted p")
      case r: True
      with True ne have "Clean p = ''/''" using Clean_cases(1) [OF ne] by (simp add: out_def)
      moreover have "clean_elements ''/'' = []"
        by (simp add: clean_elements_eq clean_step_def rooted_def)
      ultimately show ?thesis using True by (simp add: out_def)
    next
      case r: False
      with True ne have "Clean p = ''.''" using Clean_cases(2) [OF ne] by (simp add: out_def)
      moreover have "clean_elements ''.'' = []"
        by (simp add: clean_elements_eq clean_step_def rooted_def)
      ultimately show ?thesis using True by (simp add: out_def)
    qed
  next
    case False
    have el: "elements (join_slash out) = out" by (rule elements_join_slash [OF False sf])
    show ?thesis
    proof (cases "rooted p")
      case True
      then have c: "Clean p = CHR ''/'' # join_slash out"
        using Clean_cases(1) [OF ne] by (simp add: out_def)
      have "rooted (CHR ''/'' # join_slash out)" by (simp add: rooted_def)
      then have "clean_elements (CHR ''/'' # join_slash out)
          = foldl (clean_step True) [] (elements (CHR ''/'' # join_slash out))"
        by (simp add: clean_elements_eq)
      also have "\<dots> = foldl (clean_step True) [] ([] # out)"
        using el by simp
      also have "\<dots> = foldl (clean_step True) [] out" by (simp add: clean_step_def)
      also have "\<dots> = out" using fold True by simp
      finally show ?thesis using c by (simp add: out_def)
    next
      case nr: False
      then have c: "Clean p = join_slash out"
        using Clean_cases(3) [OF ne] False by (simp add: out_def)
      have "\<not> rooted (join_slash out)"
        using rooted_Clean [OF ne] nr c by simp
      then have "clean_elements (join_slash out) = foldl (clean_step False) [] (elements (join_slash out))"
        by (simp add: clean_elements_eq)
      also have "\<dots> = foldl (clean_step False) [] out" using el by simp
      also have "\<dots> = out" using fold nr by simp
      finally show ?thesis using c by (simp add: out_def)
    qed
  qed
qed

lemma Clean_idem: "Clean (Clean p) = Clean p"
proof (cases "p = []")
  case True
  then show ?thesis by (simp add: Clean_def clean_elements_def clean_step_def rooted_def)
next
  case False
  then show ?thesis
    using Clean_nonempty [of p]
    by (simp add: Clean_def [of "Clean p"] clean_elements_Clean rooted_Clean)
       (simp add: Clean_def)
qed

lemma join_base_Clean: "p \<noteq> [] \<Longrightarrow> join_base (Clean p) = join_base p"
  by (simp add: join_base_def clean_elements_Clean rooted_Clean)

lemma clean_elements_append:
  "a \<noteq> [] \<Longrightarrow> clean_elements (a @ CHR ''/'' # b)
     = foldl (clean_step (rooted a)) (clean_elements a) (elements b)"
  by (simp add: clean_elements_def elements_append_slash rooted_append)

lemma Clean_Clean_append:
  assumes "a \<noteq> []"
  shows "Clean (Clean a @ CHR ''/'' # b) = Clean (a @ CHR ''/'' # b)"
  using assms Clean_nonempty [of a]
  by (simp add: Clean_def [of "_ @ _"] clean_elements_append clean_elements_Clean
      rooted_Clean rooted_append)

lemma Join_Join:
  "filepath_Join [filepath_Join [a, b], c] = filepath_Join [a, b, c]"
proof (cases "a = []")
  case True
  show ?thesis
  proof (cases "b = []")
    case True
    with \<open>a = []\<close> show ?thesis by simp
  next
    case False
    with True show ?thesis using Clean_nonempty [of b] Clean_Clean_append [of b c] by simp
  qed
next
  case False
  then show ?thesis
    using Clean_nonempty [of "a @ CHR ''/'' # b"] Clean_Clean_append [of "a @ CHR ''/'' # b" c]
    by simp
qed

lemma Clean_join_base_any:
  assumes "p \<noteq> []"
  shows "Clean (join_base p) = Clean p"
  using Clean_join_base [OF Clean_idem, of p] join_base_Clean [OF assms] by simp

text \<open>
  \<^verbatim>\<open>path.Dir\<close> undoes \<^verbatim>\<open>filepath.Join\<close> with a proper element up to cleaning.
\<close>

lemma Dir_Join_any:
  assumes "path_element e"
  shows "path_Dir (filepath_Join [p, e]) = Clean p"
proof (cases "p = []")
  case True
  from assms have ns: "CHR ''/'' \<notin> set e" and ne: "e \<noteq> []" by (simp_all add: path_element_def)
  have nr: "\<not> rooted e" using ns by (cases e) (auto simp add: rooted_def)
  have "clean_elements e = [e]"
    using nr elements_no_slash [OF ns] clean_step_element [OF assms, of False "[]"]
    by (simp add: clean_elements_def)
  with nr ne have "Clean e = e" by (simp add: Clean_def)
  with True ne show ?thesis
    by (simp add: path_Dir_def split_dir_no_slash [OF ns] Clean_def)
next
  case ne: False
  from assms have ns: "CHR ''/'' \<notin> set e" by (simp add: path_element_def)
  have j: "filepath_Join [p, e] = join_base p @ e" by (rule Join_element [OF ne assms])
  have "split_dir (join_base p @ e) = join_base p"
    using join_base_shape [of p] split_dir_append [OF ns] split_dir_no_slash [OF ns] by auto
  with j show ?thesis by (simp add: path_Dir_def Clean_join_base_any [OF ne])
qed

text \<open>\<^verbatim>\<open>filepath.Join\<close> returns a cleaned path.\<close>

lemma Join_clean: "filepath_Join xs \<noteq> [] \<Longrightarrow> Clean (filepath_Join xs) = filepath_Join xs"
proof (induction xs)
  case Nil
  then show ?case by simp
next
  case (Cons e es)
  then show ?case by (cases "e = []") (simp_all add: Clean_idem)
qed







text \<open>
  The parent that \<^verbatim>\<open>os.MkdirAll\<close> recurses on: the path without its last element,
  the separator before it and any trailing separators.
\<close>

lemma parent_prefix_split:
  assumes "parent_prefix p \<noteq> []"
  shows "\<exists>e s. p = parent_prefix p @ CHR ''/'' # e @ s \<and> e \<noteq> [] \<and> CHR ''/'' \<notin> set e
           \<and> set s \<subseteq> {CHR ''/''}"
proof -
  define a where "a = takeWhile (\<lambda>c. c = CHR ''/'') (rev p)"
  define r1 where "r1 = dropWhile (\<lambda>c. c = CHR ''/'') (rev p)"
  define b where "b = takeWhile (\<lambda>c. c \<noteq> CHR ''/'') r1"
  define r2 where "r2 = dropWhile (\<lambda>c. c \<noteq> CHR ''/'') r1"
  have r: "rev p = a @ b @ r2"
    unfolding a_def b_def r2_def r1_def by simp
  have pp: "parent_prefix p = rev (tl r2)"
    by (simp add: parent_prefix_def r2_def r1_def)
  with assms have "r2 \<noteq> []" by auto
  then have "hd r2 = CHR ''/''"
    unfolding r2_def using hd_dropWhile [of "\<lambda>c. c \<noteq> CHR ''/''" r1] by simp
  with \<open>r2 \<noteq> []\<close> have r2: "r2 = CHR ''/'' # tl r2" by (cases r2) simp_all
  from \<open>r2 \<noteq> []\<close> have "r1 \<noteq> []" by (auto simp add: r2_def)
  then have "hd r1 \<noteq> CHR ''/''"
    unfolding r1_def using hd_dropWhile [of "\<lambda>c. c = CHR ''/''" "rev p"] by simp
  with \<open>r1 \<noteq> []\<close> have "b \<noteq> []" unfolding b_def by (cases r1) simp_all
  have bs: "CHR ''/'' \<notin> set b"
    unfolding b_def using set_takeWhileD [of "CHR ''/''" "\<lambda>c. c \<noteq> CHR ''/''" r1] by blast
  have as: "set a \<subseteq> {CHR ''/''}"
    unfolding a_def using set_takeWhileD [of _ "\<lambda>c. c = CHR ''/''" "rev p"] by blast
  from r have "p = rev r2 @ rev b @ rev a" by (metis rev_append rev_rev_ident append_assoc)
  with r2 pp have "p = parent_prefix p @ CHR ''/'' # rev b @ rev a"
    by (metis rev.simps(2) append_assoc append_Cons append_Nil)
  with \<open>b \<noteq> []\<close> bs as show ?thesis by (intro exI [of _ "rev b"] exI [of _ "rev a"]) simp
qed

lemma parent_prefix_shorter:
  assumes "parent_prefix p \<noteq> []"
  shows "length (parent_prefix p) < length p"
    and "k \<le> length (parent_prefix p) \<Longrightarrow> take k (parent_prefix p) = take k p"
    and "p ! length (parent_prefix p) = CHR ''/''"
    and "k < length (parent_prefix p) \<Longrightarrow> parent_prefix p ! k = p ! k"
proof -
  from parent_prefix_split [OF assms] obtain e s
    where p: "p = parent_prefix p @ CHR ''/'' # e @ s" by blast
  then have "length p = length (parent_prefix p) + length (CHR ''/'' # e @ s)"
    by (metis length_append)
  then show "length (parent_prefix p) < length p" by simp
  have "(parent_prefix p @ CHR ''/'' # e @ s) ! length (parent_prefix p) = CHR ''/''"
    by (simp add: nth_append)
  with p show "p ! length (parent_prefix p) = CHR ''/''" by simp
  {
    assume "k \<le> length (parent_prefix p)"
    then have "take k (parent_prefix p @ CHR ''/'' # e @ s) = take k (parent_prefix p)" by simp
    with p show "take k (parent_prefix p) = take k p" by simp
  }
  {
    assume "k < length (parent_prefix p)"
    then have "(parent_prefix p @ CHR ''/'' # e @ s) ! k = parent_prefix p ! k"
      by (simp add: nth_append)
    with p show "parent_prefix p ! k = p ! k" by simp
  }
qed

lemma mkdir_names_iff:
  "x \<in> mkdir_names p \<longleftrightarrow>
     (\<exists>k. 1 \<le> k \<and> k \<le> length p \<and> (k = length p \<or> p ! k = CHR ''/'') \<and> x = Clean (take k p))"
  by (auto simp add: mkdir_names_def)

lemma mkdir_names_self: "p \<noteq> [] \<Longrightarrow> Clean p \<in> mkdir_names p"
  unfolding mkdir_names_iff by (intro exI [of _ "length p"]) (cases p; simp)

lemma mkdir_names_parent:
  assumes "parent_prefix p \<noteq> []"
  shows "mkdir_names (parent_prefix p) \<subseteq> mkdir_names p"
proof
  fix x assume "x \<in> mkdir_names (parent_prefix p)"
  then obtain k where k: "1 \<le> k" "k \<le> length (parent_prefix p)"
    and s: "k = length (parent_prefix p) \<or> parent_prefix p ! k = CHR ''/''"
    and x: "x = Clean (take k (parent_prefix p))"
    unfolding mkdir_names_iff by blast
  note pp = parent_prefix_shorter [OF assms]
  from pp(1,2) k x have a: "k \<le> length p" "x = Clean (take k p)" by simp_all
  have "p ! k = CHR ''/''"
  proof (cases "k = length (parent_prefix p)")
    case True
    with pp(3) show ?thesis by simp
  next
    case False
    with k s have "k < length (parent_prefix p)" "parent_prefix p ! k = CHR ''/''" by simp_all
    with pp(4) show ?thesis by simp
  qed
  with k a show "x \<in> mkdir_names p" unfolding mkdir_names_iff by blast
qed




text \<open>What \<^verbatim>\<open>filepath.Join\<close> puts in front of a proper element, in terms of \<^verbatim>\<open>Clean\<close>.\<close>

lemma join_base_explicit:
  assumes "m \<noteq> []"
  shows "join_base m = (if Clean m = ''/'' then ''/'' else if Clean m = ''.'' then []
                        else Clean m @ ''/'')"
proof (cases "clean_elements m = []")
  case True
  with assms show ?thesis by (simp add: join_base_def Clean_def)
next
  case False
  have sf: "\<forall>e \<in> set (clean_elements m). CHR ''/'' \<notin> set e \<and> e \<noteq> []"
    by (rule canonical_slash_free [OF canonical_clean_elements])
  then have ne: "join_slash (clean_elements m) \<noteq> []"
    using join_slash_nonempty [OF False] by blast
  have el: "elements (join_slash (clean_elements m)) = clean_elements m"
    using elements_join_slash [OF False] sf by blast
  have nd: "join_slash (clean_elements m) \<noteq> ''.''"
  proof
    assume d: "join_slash (clean_elements m) = ''.''"
    with el have c: "clean_elements m = [''.'']" by simp
    from canonical_clean_elements [of m] obtain k rest
      where o: "clean_elements m = replicate k ''..'' @ rest"
        and r: "\<forall>e \<in> set rest. path_element e"
      unfolding canonical_def by blast
    from c have "''.'' \<in> set (clean_elements m)" by simp
    with o have "''.'' \<in> set rest" by auto
    with r show False by (auto simp add: path_element_def)
  qed
  have nr: "\<not> rooted (join_slash (clean_elements m))"
    by (rule rooted_join_slash [OF False sf])
  then have ns: "join_slash (clean_elements m) \<noteq> ''/''" by (auto simp add: rooted_def)
  show ?thesis
  proof (cases "rooted m")
    case True
    with False assms ne show ?thesis by (simp add: join_base_def Clean_def)
  next
    case r: False
    with False assms nd ns show ?thesis by (simp add: join_base_def Clean_def)
  qed
qed

lemma Clean_element: "path_element e \<Longrightarrow> Clean e = e"
proof -
  assume e: "path_element e"
  then have ns: "CHR ''/'' \<notin> set e" and ne: "e \<noteq> []" by (simp_all add: path_element_def)
  have nr: "\<not> rooted e" using ns by (cases e) (auto simp add: rooted_def)
  have "clean_elements e = [e]"
    using nr elements_no_slash [OF ns] clean_step_element [OF e, of False "[]"]
    by (simp add: clean_elements_def)
  with nr ne show "Clean e = e" by (simp add: Clean_def)
qed

lemma Join_explicit:
  assumes "path_element e"
  shows "filepath_Join [m, e]
     = (if m = [] \<or> Clean m = ''.'' then [] else if Clean m = ''/'' then ''/''
        else Clean m @ ''/'') @ e"
proof (cases "m = []")
  case True
  from assms have "e \<noteq> []" by (simp add: path_element_def)
  with True Clean_element [OF assms] show ?thesis by simp
next
  case False
  from Join_element [OF False assms] join_base_explicit [OF False] False
  show ?thesis by (simp del: filepath_Join.simps)
qed

section \<open>Host operations\<close>

lemma is_dir_clean: "Clean p = p \<Longrightarrow> is_dir w p \<longleftrightarrow> p \<in> dirs w"
  using Clean_nonempty [of p] by (auto simp add: is_dir_def)

lemma is_dir_Join: "is_dir w (filepath_Join xs) \<longleftrightarrow> filepath_Join xs \<in> dirs w \<and> filepath_Join xs \<noteq> []"
  using Join_clean [of xs] by (auto simp add: is_dir_def)

lemma os_Mkdir_cases:
  assumes "os_Mkdir p w = (r, w')"
  shows "(r \<noteq> None \<and> w' = w)
       \<or> (r = None \<and> p \<noteq> [] \<and> Clean p \<notin> dirs w \<and> w' = w\<lparr>dirs := insert (Clean p) (dirs w)\<rparr>)"
  using assms by (auto simp add: os_Mkdir_def is_dir_def split: if_splits)

lemma mkdir_last_cases:
  assumes "mkdir_last p w = (r, w')"
  shows "(r \<noteq> None \<and> w' = w \<and> \<not> is_dir w p)
       \<or> (r = None \<and> w' = w \<and> is_dir w p)
       \<or> (r = None \<and> p \<noteq> [] \<and> Clean p \<notin> dirs w \<and> w' = w\<lparr>dirs := insert (Clean p) (dirs w)\<rparr>)"
proof -
  obtain r0 w0 where m: "os_Mkdir p w = (r0, w0)" by (cases "os_Mkdir p w")
  from os_Mkdir_cases [OF m] m assms show ?thesis
    by (auto simp add: mkdir_last_def split: if_splits)
qed

text \<open>
  \<^verbatim>\<open>os.MkdirAll\<close> changes nothing but the directories; it removes none and adds only
  cleaned prefixes of its path.
\<close>

lemma os_MkdirAll_frame:
  "os_MkdirAll p w = (r, w') \<Longrightarrow>
   \<exists>D. w' = w\<lparr>dirs := D\<rparr> \<and> dirs w \<subseteq> D \<and> D \<subseteq> dirs w \<union> mkdir_names p"
proof (induction p w arbitrary: r w' rule: os_MkdirAll.induct)
  case (1 p w)
  show ?case
  proof (cases "is_dir w p")
    case True
    with 1(2) have "w' = w" by (simp add: os_MkdirAll.simps)
    then have "w' = w\<lparr>dirs := dirs w\<rparr>" by simp
    then show ?thesis by blast
  next
    case nd: False
    have last: "\<exists>D. w2 = w1\<lparr>dirs := D\<rparr> \<and> dirs w1 \<subseteq> D \<and> D \<subseteq> dirs w1 \<union> mkdir_names p"
      if "mkdir_last p w1 = (r2, w2)" for r2 w1 w2
    proof -
      from mkdir_last_cases [OF that]
      consider "w2 = w1" | "p \<noteq> []" "w2 = w1\<lparr>dirs := insert (Clean p) (dirs w1)\<rparr>" by blast
      then show ?thesis
      proof cases
        case 1
        then have "w2 = w1\<lparr>dirs := dirs w1\<rparr>" by simp
        then show ?thesis by blast
      next
        case 2
        with mkdir_names_self [of p] show ?thesis by blast
      qed
    qed
    show ?thesis
    proof (cases "parent_prefix p = []")
      case True
      with nd 1(2) have "mkdir_last p w = (r, w')" by (simp add: os_MkdirAll.simps)
      from last [OF this] show ?thesis .
    next
      case pp: False
      obtain r1 w1 where rec: "os_MkdirAll (parent_prefix p) w = (r1, w1)"
        by (cases "os_MkdirAll (parent_prefix p) w")
      from 1(1) [OF nd pp rec] obtain D1 where w1: "w1 = w\<lparr>dirs := D1\<rparr>"
        and D1: "dirs w \<subseteq> D1" "D1 \<subseteq> dirs w \<union> mkdir_names (parent_prefix p)"
        by blast
      from D1(2) mkdir_names_parent [OF pp] have D1': "D1 \<subseteq> dirs w \<union> mkdir_names p" by blast
      show ?thesis
      proof (cases r1)
        case (Some err)
        with nd pp rec 1(2) have "w' = w1" by (simp add: os_MkdirAll.simps)
        with w1 D1(1) D1' show ?thesis by blast
      next
        case None
        with nd pp rec 1(2) have "mkdir_last p w1 = (r, w')" by (simp add: os_MkdirAll.simps)
        from last [OF this] obtain D where "w' = w1\<lparr>dirs := D\<rparr>" "dirs w1 \<subseteq> D"
          "D \<subseteq> dirs w1 \<union> mkdir_names p" by blast
        with w1 D1(1) D1' have "w' = w\<lparr>dirs := D\<rparr>" "dirs w \<subseteq> D" "D \<subseteq> dirs w \<union> mkdir_names p"
          by auto
        then show ?thesis by blast
      qed
    qed
  qed
qed

lemma os_MkdirAll_dirs:
  assumes "os_MkdirAll p w = (r, w1)"
  shows "dirs w \<subseteq> dirs w1" and "dirs w1 \<subseteq> dirs w \<union> mkdir_names p"
    and "proc_mounts w1 = proc_mounts w" and "mount_calls w1 = mount_calls w"
    and "mkdir_denied w1 = mkdir_denied w" and "mount_refused w1 = mount_refused w"
    and "rename_denied w1 = rename_denied w"
  using os_MkdirAll_frame [OF assms] by auto

lemma os_MkdirAll_calls: "os_MkdirAll p w = (r, w1) \<Longrightarrow> mount_calls w1 = mount_calls w"
  by (rule os_MkdirAll_dirs(4))


text \<open>After a successful \<^verbatim>\<open>os.MkdirAll\<close> the directory exists.\<close>

lemma os_MkdirAll_ok:
  assumes "os_MkdirAll p w = (None, w')"
  shows "is_dir w' p"
proof (cases "is_dir w p")
  case True
  with assms show ?thesis by (simp add: os_MkdirAll.simps)
next
  case nd: False
  have last: "is_dir w2 p" if "mkdir_last p w1 = (None, w2)" for w1 w2
    using mkdir_last_cases [OF that] by (auto simp add: is_dir_def)
  show ?thesis
  proof (cases "parent_prefix p = []")
    case True
    with nd assms have "mkdir_last p w = (None, w')" by (simp add: os_MkdirAll.simps)
    then show ?thesis by (rule last)
  next
    case pp: False
    obtain r1 w1 where rec: "os_MkdirAll (parent_prefix p) w = (r1, w1)"
      by (cases "os_MkdirAll (parent_prefix p) w")
    show ?thesis
    proof (cases r1)
      case (Some err)
      with nd pp rec assms show ?thesis by (simp add: os_MkdirAll.simps)
    next
      case None
      with nd pp rec assms have "mkdir_last p w1 = (None, w')" by (simp add: os_MkdirAll.simps)
      then show ?thesis by (rule last)
    qed
  qed
qed



lemma run_mount_calls:
  "run_mount d mp w = (r, w1) \<Longrightarrow> mount_calls w1 = mount_calls w @ [(d, mp)]"
  by (auto simp add: run_mount_def Let_def split: if_splits)


text \<open>\<^verbatim>\<open>os.Rename\<close> of cleaned names.\<close>

lemma os_Rename_missing:
  "\<not> is_dir w old \<Longrightarrow> os_Rename old new w = (Some (LinkError ''rename'' old new ENOENT), w)"
  by (simp add: os_Rename_def)

lemma os_Rename_None:
  assumes "os_Rename old new w = (None, w')" "Clean old = old" "Clean new = new" "old \<noteq> new"
  shows "old \<in> dirs w" and "new \<notin> dirs w" and "dirs w' = moved old new ` dirs w"
proof -
  from assms(1) have o: "is_dir w old" by (auto simp add: os_Rename_def split: if_splits)
  then show "old \<in> dirs w" using is_dir_clean [OF assms(2)] by simp
  from assms o have n: "\<not> is_dir w new"
    by (auto simp add: os_Rename_def split: if_splits)
  then show "new \<notin> dirs w" using is_dir_clean [OF assms(3)] by simp
  from assms(1) o n have "w' = w\<lparr>dirs := moved (Clean old) (Clean new) ` dirs w\<rparr>"
    by (simp add: os_Rename_def split: if_splits)
  with assms(2,3) show "dirs w' = moved old new ` dirs w" by simp
qed

lemma os_Rename_ok:
  assumes "Clean old = old" "Clean new = new"
    and "old \<in> dirs w" "new \<notin> dirs w" "path_Dir new \<in> dirs w"
    and "last (elements old) \<notin> {[], ''.'', ''..''}" "\<not> below old new"
    and "old \<notin> rename_denied w"
  shows "os_Rename old new w = (None, w\<lparr>dirs := moved old new ` dirs w\<rparr>)"
proof -
  from assms(1,3) have o: "is_dir w old" by (simp add: is_dir_clean)
  from assms(2,4) have n: "\<not> is_dir w new" by (simp add: is_dir_clean)
  from assms(2) have ne: "new \<noteq> []" using Clean_nonempty [of new] by auto
  from assms(5) have p: "is_dir w (path_Dir new)"
    by (simp add: is_dir_def path_Dir_def Clean_idem Clean_nonempty)
  from o n ne p assms show ?thesis by (simp add: os_Rename_def)
qed

section \<open>Evaluating the examples\<close>

lemmas eval_defs =
  inMap_def index_string_def index_quantity_def zero_quantity_def ResourceStorage_def
  ensureMount_def ensureMount_ns_def isMounted_def mountPoint_def mountPath_def
  escape_byte_def shouldEscape_def upperhex_def
  os_MkdirAll.simps mkdir_last_def os_Mkdir_def is_dir_def parent_prefix_def
  run_mount_def os_Rename_def below_def moved_def Let_def
  pvName_def pvName_ns_def
  Clean_def clean_elements_def clean_step_def rooted_def path_Dir_def

lemma Provision_request_pv1: "Provision request_pv1 empty_host = (Inr pv1, provisioned_host)"
  by (simp add: Provision_def request_pv1_def claim_5Gi_def empty_host_def pv1_def
      provisioned_host_def eval_defs insert_commute)

lemma Provision_ns_request_pv1:
  "Provision_ns request_pv1 empty_host = (Inr pv1_ns, provisioned_host_ns)"
  by (simp add: Provision_ns_def request_pv1_def claim_5Gi_def empty_host_def pv1_ns_def
      provisioned_host_ns_def eval_defs insert_commute)

section \<open>What a successful Provision returns\<close>

lemma Provision_Inr:
  assumes "Provision options w = (Inr pv, w')"
  shows "pv = \<lparr> pv_Name = opt_PVName options,
                pv_Labels = [''io.wise2c.tenant'' \<mapsto> opt_Tenant options,
                             ''io.wise2c.stack'' \<mapsto> opt_Stack options,
                             ''io.wise2c.service'' \<mapsto> opt_Service options],
                pv_PersistentVolumeReclaimPolicy = opt_PersistentVolumeReclaimPolicy options,
                pv_AccessModes = pvc_AccessModes (opt_PVC options),
                pv_Capacity = [ResourceStorage \<mapsto>
                  index_quantity (pvc_Requests (opt_PVC options)) ResourceStorage],
                pv_NFS = Some \<lparr> nfs_Server = index_string (opt_Parameters options) ''nfsServer'',
                                nfs_Path = filepath_Join
                                  [index_string (opt_Parameters options) ''nfsPath'',
                                   pvName (opt_Tenant options) (opt_Stack options)
                                     (opt_Service options) (opt_PVName options)],
                                nfs_ReadOnly = False \<rparr>,
                pv_ClaimRef = None \<rparr>"
  using assms
  by (auto simp add: Provision_def Let_def split: if_splits prod.splits option.splits)

lemma Provision_ns_Inr:
  assumes "Provision_ns options w = (Inr pv, w')"
  shows "pv = \<lparr> pv_Name = opt_PVName options,
                pv_Labels = Map.empty,
                pv_PersistentVolumeReclaimPolicy = opt_PersistentVolumeReclaimPolicy options,
                pv_AccessModes = pvc_AccessModes (opt_PVC options),
                pv_Capacity = [ResourceStorage \<mapsto>
                  index_quantity (pvc_Requests (opt_PVC options)) ResourceStorage],
                pv_NFS = Some \<lparr> nfs_Server = index_string (opt_Parameters options) ''nfsServer'',
                                nfs_Path = filepath_Join
                                  [index_string (opt_Parameters options) ''nfsPath'',
                                   pvName_ns (pvc_Namespace (opt_PVC options))
                                     (opt_PVName options)],
                                nfs_ReadOnly = False \<rparr>,
                pv_ClaimRef = None \<rparr>"
  using assms
  by (auto simp add: Provision_ns_def Let_def split: if_splits prod.splits option.splits)

lemma Provision_Inr_accepted:
  assumes "Provision options w = (Inr pv, w')"
  shows "\<exists>server path. accepted options server path"
  using assms
  by (auto simp add: Provision_def accepted_def inMap_def Let_def
      split: if_splits option.splits)

lemma Provision_ns_Inr_accepted:
  assumes "Provision_ns options w = (Inr pv, w')"
  shows "\<exists>server path. accepted options server path"
  using assms
  by (auto simp add: Provision_ns_def accepted_def inMap_def Let_def
      split: if_splits option.splits)

section \<open>Validation of the request\<close>

text \<open>
  C5. A request whose claim carries a selector is refused with the error
  ``claim Selector is not supported''; the host is returned as it was (no directory is
  created, no mount is run), and this holds whatever the parameters block contains: the
  selector is checked first. Both variants.
\<close>

theorem Provision_selector_unsupported:
  assumes "pvc_Selector (opt_PVC options) \<noteq> None"
  shows "Provision options w = (Inl (New ''claim Selector is not supported''), w)
       \<and> Provision_ns options w = (Inl (New ''claim Selector is not supported''), w)"
  using assms by (simp add: Provision_def Provision_ns_def)

theorem Provision_selector_unsupported_witness:
  "pvc_Selector (opt_PVC selector_request) \<noteq> None
   \<and> Provision selector_request empty_host
       = (Inl (New ''claim Selector is not supported''), empty_host)
   \<and> Provision_ns selector_request empty_host
       = (Inl (New ''claim Selector is not supported''), empty_host)"
proof -
  have h: "pvc_Selector (opt_PVC selector_request) \<noteq> None"
    by (simp add: selector_request_def)
  from Provision_selector_unsupported [OF h, of empty_host] h show ?thesis by simp
qed

text \<open>
  C6. When the parameters block lacks \<^verbatim>\<open>nfsServer\<close> or \<^verbatim>\<open>nfsPath\<close> (or both),
  Provision returns the host as it was: nothing is created or mounted. The error is
  ``nfsPath and nfsServer parameters required'' for every such request that reaches this
  check, that is, whose claim carries no selector; the selector is checked before the
  parameters (C5). Both variants.
\<close>

theorem Provision_missing_parameter:
  assumes "opt_Parameters options ''nfsServer'' = None
         \<or> opt_Parameters options ''nfsPath'' = None"
  shows "snd (Provision options w) = w \<and> snd (Provision_ns options w) = w
     \<and> (pvc_Selector (opt_PVC options) = None \<longrightarrow>
          Provision options w = (Inl (New ''nfsPath and nfsServer parameters required''), w)
        \<and> Provision_ns options w
            = (Inl (New ''nfsPath and nfsServer parameters required''), w))"
  using assms by (auto simp add: Provision_def Provision_ns_def inMap_def)

theorem Provision_missing_parameter_witness:
  "(opt_Parameters request_no_path ''nfsServer'' = None
      \<or> opt_Parameters request_no_path ''nfsPath'' = None)
   \<and> pvc_Selector (opt_PVC request_no_path) = None
   \<and> Provision request_no_path empty_host
       = (Inl (New ''nfsPath and nfsServer parameters required''), empty_host)
   \<and> Provision_ns request_no_path empty_host
       = (Inl (New ''nfsPath and nfsServer parameters required''), empty_host)"
proof -
  have h: "opt_Parameters request_no_path ''nfsServer'' = None
         \<or> opt_Parameters request_no_path ''nfsPath'' = None"
    by (simp add: request_no_path_def)
  have s: "pvc_Selector (opt_PVC request_no_path) = None"
    by (simp add: request_no_path_def request_pv1_def claim_5Gi_def)
  from Provision_missing_parameter [OF h, of empty_host] h s show ?thesis by simp
qed

section \<open>The descriptor\<close>

lemma Provision_request_dotdot:
  "\<not> isl (fst (Provision request_dotdot empty_host))
   \<and> pv_NFS (projr (fst (Provision request_dotdot empty_host)))
       = Some \<lparr>nfs_Server = ''nfs1'', nfs_Path = ''/export'', nfs_ReadOnly = False\<rparr>"
  by (simp add: Provision_def request_dotdot_def request_pv1_def claim_5Gi_def empty_host_def
      eval_defs)

lemma Provision_ns_request_dotdot:
  "\<not> isl (fst (Provision_ns request_dotdot empty_host))
   \<and> pv_NFS (projr (fst (Provision_ns request_dotdot empty_host)))
       = Some \<lparr>nfs_Server = ''nfs1'', nfs_Path = ''/export'', nfs_ReadOnly = False\<rparr>"
  by (simp add: Provision_ns_def request_dotdot_def request_pv1_def claim_5Gi_def
      empty_host_def eval_defs)

text \<open>
  C7, as stated, fails for the export path. \<^verbatim>\<open>Provision\<close> builds it with
  \<^verbatim>\<open>filepath.Join\<close>, which cleans the joined path: for the volume name \<^verbatim>\<open>/..\<close> the
  directory name is \<^verbatim>\<open>acme-web-svc-/..\<close> (\<^verbatim>\<open>default-/..\<close> in the second variant),
  Provision succeeds, and the export path of the descriptor is the remote path
  \<^verbatim>\<open>/export\<close> itself, not that path extended by the directory name.
\<close>

theorem Provision_descriptor_counterexample:
  "opt_Parameters request_dotdot ''nfsPath'' = Some ''/export''
   \<and> volume_name request_dotdot = ''acme-web-svc-/..''
   \<and> \<not> isl (fst (Provision request_dotdot empty_host))
   \<and> pv_NFS (projr (fst (Provision request_dotdot empty_host)))
       = Some \<lparr>nfs_Server = ''nfs1'', nfs_Path = ''/export'', nfs_ReadOnly = False\<rparr>
   \<and> volume_name_ns request_dotdot = ''default-/..''
   \<and> \<not> isl (fst (Provision_ns request_dotdot empty_host))
   \<and> pv_NFS (projr (fst (Provision_ns request_dotdot empty_host)))
       = Some \<lparr>nfs_Server = ''nfs1'', nfs_Path = ''/export'', nfs_ReadOnly = False\<rparr>"
  using Provision_request_dotdot Provision_ns_request_dotdot
  by (simp add: request_dotdot_def request_pv1_def claim_5Gi_def volume_name_def
      volume_name_ns_def pvName_def pvName_ns_def)

text \<open>
  C7, amended. When Provision succeeds, the descriptor has
  \<^item> as name the requested volume name \<^verbatim>\<open>PVName\<close>, which is never the directory name;
  \<^item> the reclaim policy of the request and the access modes of the claim;
  \<^item> a capacity with the one entry \<^verbatim>\<open>storage\<close>: the claim's storage request (whenever
    the claim requests \<open>q\<close>, the capacity is \<open>q\<close>), and the zero quantity when the claim
    has none;
  \<^item> an NFS source, not read-only, with the server of the request;
  \<^item> as export path, when tenant, stack, service and volume name contain no slash, the
    cleaned remote path, a slash, and the directory name: \<^verbatim>\<open>path.Clean(nfsPath)\<close>
    followed by \<^verbatim>\<open>/name\<close>. (Only \<^verbatim>\<open>/name\<close> when the cleaned remote path is
    \<^verbatim>\<open>/\<close>, and only the name when the remote path is empty or cleans to \<^verbatim>\<open>.\<close>.)
  The same in the second variant, with the namespace in place of tenant, stack and
  service.
\<close>

theorem Provision_descriptor:
  "(Provision options w = (Inr pv, w') \<longrightarrow>
      pv_Name pv = opt_PVName options
    \<and> pv_Name pv \<noteq> pvName (opt_Tenant options) (opt_Stack options) (opt_Service options)
                   (opt_PVName options)
    \<and> pv_PersistentVolumeReclaimPolicy pv = opt_PersistentVolumeReclaimPolicy options
    \<and> pv_AccessModes pv = pvc_AccessModes (opt_PVC options)
    \<and> dom (pv_Capacity pv) = {''storage''}
    \<and> pv_Capacity pv ''storage''
        = Some (case pvc_Requests (opt_PVC options) ''storage'' of
                  None \<Rightarrow> Quantity 0 [] | Some r \<Rightarrow> r)
    \<and> (pvc_Requests (opt_PVC options) ''storage'' = Some q \<longrightarrow>
          pv_Capacity pv ''storage'' = Some q)
    \<and> map_option nfs_Server (pv_NFS pv) = opt_Parameters options ''nfsServer''
    \<and> map_option nfs_ReadOnly (pv_NFS pv) = Some False
    \<and> (opt_Parameters options ''nfsPath'' = Some path
        \<and> CHR ''/'' \<notin> set (opt_Tenant options) \<union> set (opt_Stack options)
               \<union> set (opt_Service options) \<union> set (opt_PVName options) \<longrightarrow>
          map_option nfs_Path (pv_NFS pv)
            = Some ((if path = [] \<or> Clean path = ''.'' then []
                     else if Clean path = ''/'' then ''/'' else Clean path @ ''/'')
                    @ pvName (opt_Tenant options) (opt_Stack options) (opt_Service options)
                        (opt_PVName options))))
  \<and> (Provision_ns options' v = (Inr pv', v') \<longrightarrow>
      pv_Name pv' = opt_PVName options'
    \<and> pv_Name pv' \<noteq> pvName_ns (pvc_Namespace (opt_PVC options')) (opt_PVName options')
    \<and> pv_PersistentVolumeReclaimPolicy pv' = opt_PersistentVolumeReclaimPolicy options'
    \<and> pv_AccessModes pv' = pvc_AccessModes (opt_PVC options')
    \<and> dom (pv_Capacity pv') = {''storage''}
    \<and> pv_Capacity pv' ''storage''
        = Some (case pvc_Requests (opt_PVC options') ''storage'' of
                  None \<Rightarrow> Quantity 0 [] | Some r \<Rightarrow> r)
    \<and> (pvc_Requests (opt_PVC options') ''storage'' = Some q' \<longrightarrow>
          pv_Capacity pv' ''storage'' = Some q')
    \<and> map_option nfs_Server (pv_NFS pv') = opt_Parameters options' ''nfsServer''
    \<and> map_option nfs_ReadOnly (pv_NFS pv') = Some False
    \<and> (opt_Parameters options' ''nfsPath'' = Some path'
        \<and> CHR ''/'' \<notin> set (pvc_Namespace (opt_PVC options')) \<union> set (opt_PVName options') \<longrightarrow>
          map_option nfs_Path (pv_NFS pv')
            = Some ((if path' = [] \<or> Clean path' = ''.'' then []
                     else if Clean path' = ''/'' then ''/'' else Clean path' @ ''/'')
                    @ pvName_ns (pvc_Namespace (opt_PVC options')) (opt_PVName options'))))"
proof (intro conjI impI)
  assume p: "Provision options w = (Inr pv, w')"
  note r = Provision_Inr [OF p]
  from Provision_Inr_accepted [OF p] obtain server0 path0
    where a: "accepted options server0 path0" by blast
  show "pv_Name pv = opt_PVName options"
    and "pv_PersistentVolumeReclaimPolicy pv = opt_PersistentVolumeReclaimPolicy options"
    and "pv_AccessModes pv = pvc_AccessModes (opt_PVC options)"
    using r by simp_all
  have "length (opt_PVName options) < length (pvName (opt_Tenant options) (opt_Stack options)
          (opt_Service options) (opt_PVName options))"
    by (simp add: pvName_def)
  then have "opt_PVName options \<noteq> pvName (opt_Tenant options) (opt_Stack options)
      (opt_Service options) (opt_PVName options)"
    by auto
  with r show "pv_Name pv \<noteq> pvName (opt_Tenant options) (opt_Stack options)
      (opt_Service options) (opt_PVName options)"
    by simp
  from r have c: "pv_Capacity pv = [''storage'' \<mapsto>
      index_quantity (pvc_Requests (opt_PVC options)) ''storage'']"
    by (simp add: ResourceStorage_def)
  from c show "dom (pv_Capacity pv) = {''storage''}" by simp
  from c show "pv_Capacity pv ''storage''
        = Some (case pvc_Requests (opt_PVC options) ''storage'' of
                  None \<Rightarrow> Quantity 0 [] | Some r \<Rightarrow> r)"
    by (simp add: index_quantity_def zero_quantity_def split: option.split)
  {
    assume "pvc_Requests (opt_PVC options) ''storage'' = Some q"
    with c show "pv_Capacity pv ''storage'' = Some q" by (simp add: index_quantity_def)
  }
  from r a show "map_option nfs_Server (pv_NFS pv) = opt_Parameters options ''nfsServer''"
    by (simp add: accepted_def index_string_def del: filepath_Join.simps)
  from r show "map_option nfs_ReadOnly (pv_NFS pv) = Some False"
    by (simp del: filepath_Join.simps)
  {
    assume h: "opt_Parameters options ''nfsPath'' = Some path
        \<and> CHR ''/'' \<notin> set (opt_Tenant options) \<union> set (opt_Stack options)
               \<union> set (opt_Service options) \<union> set (opt_PVName options)"
    then have e: "path_element (pvName (opt_Tenant options) (opt_Stack options)
        (opt_Service options) (opt_PVName options))"
      using pvName_element(1) by blast
    from r h have "map_option nfs_Path (pv_NFS pv)
        = Some (filepath_Join [path, pvName (opt_Tenant options) (opt_Stack options)
            (opt_Service options) (opt_PVName options)])"
      by (simp add: index_string_def del: filepath_Join.simps)
    then show "map_option nfs_Path (pv_NFS pv)
            = Some ((if path = [] \<or> Clean path = ''.'' then []
                     else if Clean path = ''/'' then ''/'' else Clean path @ ''/'')
                    @ pvName (opt_Tenant options) (opt_Stack options) (opt_Service options)
                        (opt_PVName options))"
      unfolding Join_explicit [OF e] .
  }
next
  assume p: "Provision_ns options' v = (Inr pv', v')"
  note r = Provision_ns_Inr [OF p]
  from Provision_ns_Inr_accepted [OF p] obtain server0 path0
    where a: "accepted options' server0 path0" by blast
  show "pv_Name pv' = opt_PVName options'"
    and "pv_PersistentVolumeReclaimPolicy pv' = opt_PersistentVolumeReclaimPolicy options'"
    and "pv_AccessModes pv' = pvc_AccessModes (opt_PVC options')"
    using r by simp_all
  have "length (opt_PVName options')
      < length (pvName_ns (pvc_Namespace (opt_PVC options')) (opt_PVName options'))"
    by (simp add: pvName_ns_def)
  then have "opt_PVName options'
      \<noteq> pvName_ns (pvc_Namespace (opt_PVC options')) (opt_PVName options')"
    by auto
  with r show "pv_Name pv' \<noteq> pvName_ns (pvc_Namespace (opt_PVC options')) (opt_PVName options')"
    by simp
  from r have c: "pv_Capacity pv' = [''storage'' \<mapsto>
      index_quantity (pvc_Requests (opt_PVC options')) ''storage'']"
    by (simp add: ResourceStorage_def)
  from c show "dom (pv_Capacity pv') = {''storage''}" by simp
  from c show "pv_Capacity pv' ''storage''
        = Some (case pvc_Requests (opt_PVC options') ''storage'' of
                  None \<Rightarrow> Quantity 0 [] | Some r \<Rightarrow> r)"
    by (simp add: index_quantity_def zero_quantity_def split: option.split)
  {
    assume "pvc_Requests (opt_PVC options') ''storage'' = Some q'"
    with c show "pv_Capacity pv' ''storage'' = Some q'" by (simp add: index_quantity_def)
  }
  from r a show "map_option nfs_Server (pv_NFS pv') = opt_Parameters options' ''nfsServer''"
    by (simp add: accepted_def index_string_def del: filepath_Join.simps)
  from r show "map_option nfs_ReadOnly (pv_NFS pv') = Some False"
    by (simp del: filepath_Join.simps)
  {
    assume h: "opt_Parameters options' ''nfsPath'' = Some path'
        \<and> CHR ''/'' \<notin> set (pvc_Namespace (opt_PVC options')) \<union> set (opt_PVName options')"
    then have e: "path_element (pvName_ns (pvc_Namespace (opt_PVC options'))
        (opt_PVName options'))"
      using pvName_ns_element(1) by blast
    from r h have "map_option nfs_Path (pv_NFS pv')
        = Some (filepath_Join [path', pvName_ns (pvc_Namespace (opt_PVC options'))
            (opt_PVName options')])"
      by (simp add: index_string_def del: filepath_Join.simps)
    then show "map_option nfs_Path (pv_NFS pv')
            = Some ((if path' = [] \<or> Clean path' = ''.'' then []
                     else if Clean path' = ''/'' then ''/'' else Clean path' @ ''/'')
                    @ pvName_ns (pvc_Namespace (opt_PVC options')) (opt_PVName options'))"
      unfolding Join_explicit [OF e] .
  }
qed

theorem Provision_descriptor_witness:
  "Provision request_pv1 empty_host = (Inr pv1, provisioned_host)
   \<and> Provision_ns request_pv1 empty_host = (Inr pv1_ns, provisioned_host_ns)
   \<and> pvc_Requests (opt_PVC request_pv1) ''storage'' = Some (Quantity 5 ''Gi'')
   \<and> opt_Parameters request_pv1 ''nfsPath'' = Some ''/export''
   \<and> opt_Parameters request_pv1 ''nfsServer'' = Some ''nfs1''
   \<and> pv_Name pv1 = ''pv-1'' \<and> pv_Name pv1_ns = ''pv-1''
   \<and> pv_Capacity pv1 ''storage'' = Some (Quantity 5 ''Gi'')
   \<and> pv_Capacity pv1_ns ''storage'' = Some (Quantity 5 ''Gi'')
   \<and> map_option nfs_Server (pv_NFS pv1) = Some ''nfs1''
   \<and> map_option nfs_Server (pv_NFS pv1_ns) = Some ''nfs1''
   \<and> map_option nfs_Path (pv_NFS pv1) = Some ''/export/acme-web-svc-pv-1''
   \<and> map_option nfs_Path (pv_NFS pv1_ns) = Some ''/export/default-pv-1''"
proof -
  have q: "pvc_Requests (opt_PVC request_pv1) ''storage'' = Some (Quantity 5 ''Gi'')"
    and s: "opt_Parameters request_pv1 ''nfsServer'' = Some ''nfs1''"
    and f: "opt_Parameters request_pv1 ''nfsPath'' = Some ''/export''
        \<and> CHR ''/'' \<notin> set (opt_Tenant request_pv1) \<union> set (opt_Stack request_pv1)
               \<union> set (opt_Service request_pv1) \<union> set (opt_PVName request_pv1)"
    and f': "opt_Parameters request_pv1 ''nfsPath'' = Some ''/export''
        \<and> CHR ''/'' \<notin> set (pvc_Namespace (opt_PVC request_pv1)) \<union> set (opt_PVName request_pv1)"
    by (simp_all add: request_pv1_def claim_5Gi_def)
  have c: "Clean ''/export'' = ''/export''" by (simp add: eval_defs)
  have n: "pvName (opt_Tenant request_pv1) (opt_Stack request_pv1) (opt_Service request_pv1)
      (opt_PVName request_pv1) = ''acme-web-svc-pv-1''"
    "pvName_ns (pvc_Namespace (opt_PVC request_pv1)) (opt_PVName request_pv1) = ''default-pv-1''"
    by (simp_all add: request_pv1_def claim_5Gi_def pvName_def pvName_ns_def)
  note T = Provision_descriptor [of request_pv1 empty_host pv1 provisioned_host
      "Quantity 5 ''Gi''" "''/export''"
      request_pv1 empty_host pv1_ns provisioned_host_ns "Quantity 5 ''Gi''" "''/export''"]
  note A = T [THEN conjunct1, THEN mp, OF Provision_request_pv1]
  note B = T [THEN conjunct2, THEN mp, OF Provision_ns_request_pv1]
  have A1: "pv_Name pv1 = ''pv-1''" using A by (simp add: request_pv1_def)
  have B1: "pv_Name pv1_ns = ''pv-1''" using B by (simp add: request_pv1_def)
  have A2: "pv_Capacity pv1 ''storage'' = Some (Quantity 5 ''Gi'')" using A q by blast
  have B2: "pv_Capacity pv1_ns ''storage'' = Some (Quantity 5 ''Gi'')" using B q by blast
  have A3: "map_option nfs_Server (pv_NFS pv1) = Some ''nfs1''" using A s by simp
  have B3: "map_option nfs_Server (pv_NFS pv1_ns) = Some ''nfs1''" using B s by simp
  have A4: "map_option nfs_Path (pv_NFS pv1) = Some ''/export/acme-web-svc-pv-1''"
    using A f c n by simp
  have B4: "map_option nfs_Path (pv_NFS pv1_ns) = Some ''/export/default-pv-1''"
    using B f' c n by simp
  from Provision_request_pv1 Provision_ns_request_pv1 q f s A1 B1 A2 B2 A3 B3 A4 B4
  show ?thesis by (intro conjI) simp_all
qed

section \<open>Directory names\<close>

lemma nodash_split:
  assumes "c \<notin> set a" "c \<notin> set b" "a @ c # x = b @ c # y"
  shows "a = b \<and> x = y"
  using assms
proof (induction a arbitrary: b)
  case Nil
  then show ?case by (cases b) auto
next
  case (Cons h t)
  then show ?case by (cases b) auto
qed

text \<open>
  C2, as stated, fails: a grouping key that contains the separator shifts the field
  boundaries, and two distinct tuples give one name. Both variants.
\<close>

theorem pvName_collision:
  "(''a-b'', ''c'', ''d'', ''e'') \<noteq> (''a'', ''b-c'', ''d'', ''e'')
   \<and> pvName ''a-b'' ''c'' ''d'' ''e'' = pvName ''a'' ''b-c'' ''d'' ''e''
   \<and> (''a-b'', ''c'') \<noteq> (''a'', ''b-c'')
   \<and> pvName_ns ''a-b'' ''c'' = pvName_ns ''a'' ''b-c''"
  by (simp add: pvName_def pvName_ns_def)

text \<open>
  C2, amended. When no grouping key (tenant, stack, service; the namespace in the second
  variant) contains the separator \<^verbatim>\<open>-\<close>, distinct tuples give distinct names. The base
  name may contain the separator.
\<close>

theorem pvName_distinct:
  "(CHR ''-'' \<notin> set t1 \<union> set s1 \<union> set v1 \<union> set t2 \<union> set s2 \<union> set v2
     \<and> (t1, s1, v1, n1) \<noteq> (t2, s2, v2, n2)
     \<longrightarrow> pvName t1 s1 v1 n1 \<noteq> pvName t2 s2 v2 n2)
 \<and> (CHR ''-'' \<notin> set ns1 \<union> set ns2 \<and> (ns1, m1) \<noteq> (ns2, m2)
     \<longrightarrow> pvName_ns ns1 m1 \<noteq> pvName_ns ns2 m2)"
proof (intro conjI impI notI)
  assume h: "CHR ''-'' \<notin> set t1 \<union> set s1 \<union> set v1 \<union> set t2 \<union> set s2 \<union> set v2
     \<and> (t1, s1, v1, n1) \<noteq> (t2, s2, v2, n2)"
    and e: "pvName t1 s1 v1 n1 = pvName t2 s2 v2 n2"
  from e have e1: "t1 @ CHR ''-'' # (s1 @ CHR ''-'' # (v1 @ CHR ''-'' # n1))
      = t2 @ CHR ''-'' # (s2 @ CHR ''-'' # (v2 @ CHR ''-'' # n2))"
    by (simp add: pvName_def)
  from h have t: "t1 = t2"
    and e2: "s1 @ CHR ''-'' # (v1 @ CHR ''-'' # n1) = s2 @ CHR ''-'' # (v2 @ CHR ''-'' # n2)"
    using nodash_split [OF _ _ e1] by auto
  from h have s: "s1 = s2" and e3: "v1 @ CHR ''-'' # n1 = v2 @ CHR ''-'' # n2"
    using nodash_split [OF _ _ e2] by auto
  from h have "v1 = v2 \<and> n1 = n2"
    using nodash_split [OF _ _ e3] by auto
  with t s h show False by simp
next
  assume h: "CHR ''-'' \<notin> set ns1 \<union> set ns2 \<and> (ns1, m1) \<noteq> (ns2, m2)"
    and e: "pvName_ns ns1 m1 = pvName_ns ns2 m2"
  from e have "ns1 @ CHR ''-'' # m1 = ns2 @ CHR ''-'' # m2"
    by (simp add: pvName_ns_def)
  with h show False using nodash_split [of "CHR ''-''" ns1 ns2 m1 m2] by auto
qed

theorem pvName_distinct_witness:
  "CHR ''-'' \<notin> set ''acme'' \<union> set ''web'' \<union> set ''svc''
               \<union> set ''acme'' \<union> set ''web'' \<union> set ''api''
   \<and> (''acme'', ''web'', ''svc'', ''pv-1'') \<noteq> (''acme'', ''web'', ''api'', ''pv-1'')
   \<and> pvName ''acme'' ''web'' ''svc'' ''pv-1'' \<noteq> pvName ''acme'' ''web'' ''api'' ''pv-1''
   \<and> CHR ''-'' \<notin> set ''default'' \<union> set ''prod''
   \<and> (''default'', ''pv-1'') \<noteq> (''prod'', ''pv-1'')
   \<and> pvName_ns ''default'' ''pv-1'' \<noteq> pvName_ns ''prod'' ''pv-1''"
  using pvName_distinct [of "''acme''" "''web''" "''svc''" "''acme''" "''web''" "''api''"
      "''pv-1''" "''pv-1''" "''default''" "''prod''" "''pv-1''" "''pv-1''"]
  by simp

section \<open>Mounting once\<close>

lemma ensureMount_mounted:
  "isMounted w (mountPoint server path) \<Longrightarrow>
   ensureMount server path w = ((mountPoint server path, None), w)"
  by (simp add: ensureMount_def)

lemma ensureMount_ns_mounted:
  "isMounted w mp \<Longrightarrow> ensureMount_ns server path mp w = (None, w)"
  by (simp add: ensureMount_ns_def)

lemma ensureMount_ns_calls:
  assumes "ensureMount_ns server path mp w = (r, w1)"
  shows "mount_calls w1 = mount_calls w
       \<or> mount_calls w1 = mount_calls w @ [(server @ '':'' @ path, mp)]"
proof (cases "isMounted w mp")
  case True
  with assms show ?thesis by (simp add: ensureMount_ns_def)
next
  case False
  obtain e wa where m: "os_MkdirAll mp w = (e, wa)" by (cases "os_MkdirAll mp w")
  show ?thesis
  proof (cases e)
    case None
    with False m assms have "run_mount (server @ '':'' @ path) mp wa = (r, w1)"
      by (simp add: ensureMount_ns_def)
    from run_mount_calls [OF this] os_MkdirAll_calls [OF m] show ?thesis by simp
  next
    case (Some err)
    with False m assms have "w1 = wa" by (simp add: ensureMount_ns_def)
    with os_MkdirAll_calls [OF m] show ?thesis by simp
  qed
qed

text \<open>
  The two \<^verbatim>\<open>ensureMount\<close> functions differ only in where the mount point comes from.
\<close>

lemma ensureMount_as_ns:
  "ensureMount server path w =
     (case ensureMount_ns server path (mountPoint server path) w of
        (r, w1) \<Rightarrow> ((mountPoint server path, r), w1))"
  by (simp add: ensureMount_def ensureMount_ns_def Let_def split: prod.split option.split)

lemma ensureMount_mp:
  "ensureMount server path w = ((mp, r), w1) \<Longrightarrow> mp = mountPoint server path"
  by (simp add: ensureMount_as_ns split: prod.splits)

lemma ensureMount_calls:
  assumes "ensureMount server path w = ((mp, r), w1)"
  shows "mount_calls w1 = mount_calls w
       \<or> mount_calls w1 = mount_calls w @ [(server @ '':'' @ path, mp)]"
proof -
  from assms have "ensureMount_ns server path (mountPoint server path) w = (r, w1)"
    and "mp = mountPoint server path"
    by (simp_all add: ensureMount_as_ns split: prod.splits)
  then show ?thesis using ensureMount_ns_calls by blast
qed

lemma ensureMount_empty_host:
  "ensureMount ''nfs1'' ''/export'' empty_host
     = ((''/persistentvolumes/nfs1/%2Fexport'', None), mounted_host)"
  by (simp add: empty_host_def mounted_host_def eval_defs insert_commute)

lemma ensureMount_mounted_host:
  "ensureMount ''nfs1'' ''/export'' mounted_host
     = ((''/persistentvolumes/nfs1/%2Fexport'', None), mounted_host)"
  by (simp add: mounted_host_def eval_defs)

lemma ensureMount_ns_empty_host:
  "ensureMount_ns ''nfs1'' ''/export'' ''/persistentvolumes/nfs1'' empty_host
     = (None, mounted_host_ns)"
  by (simp add: empty_host_def mounted_host_ns_def eval_defs insert_commute)

lemma ensureMount_ns_mounted_host:
  "ensureMount_ns ''nfs1'' ''/export'' ''/persistentvolumes/nfs1'' mounted_host_ns
     = (None, mounted_host_ns)"
  by (simp add: mounted_host_ns_def eval_defs)

text \<open>
  C4. When a first \<^verbatim>\<open>ensureMount\<close> returns without error and its mount point is then
  listed in the mount table, a second call for the same target returns the same mount
  point without error and leaves the host as it is; the two calls together have run the
  mount command at most once. Both variants (in the second one the mount point is the
  caller's argument).
\<close>

theorem ensureMount_twice:
  "(ensureMount server path w = ((mp1, None), w1) \<and> isMounted w1 mp1
      \<and> ensureMount server path w1 = ((mp2, r2), w2)
    \<longrightarrow> mp2 = mp1 \<and> r2 = None \<and> w2 = w1
        \<and> length (mount_calls w2) \<le> Suc (length (mount_calls w)))
 \<and> (ensureMount_ns server path mp v = (None, v1) \<and> isMounted v1 mp
      \<and> ensureMount_ns server path mp v1 = (s2, v2)
    \<longrightarrow> s2 = None \<and> v2 = v1
        \<and> length (mount_calls v2) \<le> Suc (length (mount_calls v)))"
proof (intro conjI impI)
  assume h: "ensureMount server path w = ((mp1, None), w1) \<and> isMounted w1 mp1
      \<and> ensureMount server path w1 = ((mp2, r2), w2)"
  then have m: "mp1 = mountPoint server path" using ensureMount_mp by blast
  from h m have "isMounted w1 (mountPoint server path)" by simp
  from ensureMount_mounted [OF this] m
  have "ensureMount server path w1 = ((mp1, None), w1)" by simp
  with h show "mp2 = mp1" "r2 = None" "w2 = w1" by simp_all
  with h ensureMount_calls [of server path w mp1 None w1]
  show "length (mount_calls w2) \<le> Suc (length (mount_calls w))" by auto
next
  assume h: "ensureMount_ns server path mp v = (None, v1) \<and> isMounted v1 mp
      \<and> ensureMount_ns server path mp v1 = (s2, v2)"
  then have "isMounted v1 mp" by simp
  from ensureMount_ns_mounted [OF this]
  have "ensureMount_ns server path mp v1 = (None, v1)" .
  with h show "s2 = None" "v2 = v1" by simp_all
  with h ensureMount_ns_calls [of server path mp v None v1]
  show "length (mount_calls v2) \<le> Suc (length (mount_calls v))" by auto
qed

theorem ensureMount_twice_witness:
  "ensureMount ''nfs1'' ''/export'' empty_host
     = ((''/persistentvolumes/nfs1/%2Fexport'', None), mounted_host)
   \<and> isMounted mounted_host ''/persistentvolumes/nfs1/%2Fexport''
   \<and> ensureMount ''nfs1'' ''/export'' mounted_host
     = ((''/persistentvolumes/nfs1/%2Fexport'', None), mounted_host)
   \<and> length (mount_calls mounted_host) \<le> Suc (length (mount_calls empty_host))
   \<and> ensureMount_ns ''nfs1'' ''/export'' ''/persistentvolumes/nfs1'' empty_host
     = (None, mounted_host_ns)
   \<and> isMounted mounted_host_ns ''/persistentvolumes/nfs1''
   \<and> ensureMount_ns ''nfs1'' ''/export'' ''/persistentvolumes/nfs1'' mounted_host_ns
     = (None, mounted_host_ns)
   \<and> length (mount_calls mounted_host_ns) \<le> Suc (length (mount_calls empty_host))"
proof -
  have a: "isMounted mounted_host ''/persistentvolumes/nfs1/%2Fexport''"
    by (simp add: isMounted_def mounted_host_def)
  have b: "isMounted mounted_host_ns ''/persistentvolumes/nfs1''"
    by (simp add: isMounted_def mounted_host_ns_def)
  from ensureMount_twice [of "''nfs1''" "''/export''" empty_host
      "''/persistentvolumes/nfs1/%2Fexport''" mounted_host
      "''/persistentvolumes/nfs1/%2Fexport''" None mounted_host
      "''/persistentvolumes/nfs1''" empty_host mounted_host_ns None mounted_host_ns]
    a b ensureMount_empty_host ensureMount_mounted_host
    ensureMount_ns_empty_host ensureMount_ns_mounted_host
  show ?thesis by simp
qed

section \<open>Nil fields of the descriptor\<close>

lemma Delete_no_NFS: "pv_NFS volume = None \<Longrightarrow> Delete volume w = (NilPointerPanic, w)"
  by (simp add: Delete_def)

lemma Delete_ns_no_NFS: "pv_NFS volume = None \<Longrightarrow> Delete_ns volume w = (NilPointerPanic, w)"
  by (simp add: Delete_ns_def)

lemma Delete_NFS_returns:
  "pv_NFS volume = Some nfs \<Longrightarrow> fst (Delete volume w) \<noteq> NilPointerPanic"
  by (simp add: Delete_def Let_def split: prod.split option.split)

lemma Delete_ns_mount_error:
  "pv_NFS volume = Some nfs \<Longrightarrow>
   ensureMount_ns (nfs_Server nfs) (path_Dir (nfs_Path nfs))
     (filepath_Join [mountPath, nfs_Server nfs]) w = (Some err, w1) \<Longrightarrow>
   Delete_ns volume w = (Return (Some err), w1)"
  by (simp add: Delete_ns_def Let_def)

lemma Delete_ns_no_ClaimRef:
  "pv_NFS volume = Some nfs \<Longrightarrow> pv_ClaimRef volume = None \<Longrightarrow>
   ensureMount_ns (nfs_Server nfs) (path_Dir (nfs_Path nfs))
     (filepath_Join [mountPath, nfs_Server nfs]) w = (None, w1) \<Longrightarrow>
   Delete_ns volume w = (NilPointerPanic, w1)"
  by (simp add: Delete_ns_def Let_def)

lemma Delete_ns_ClaimRef_returns:
  "pv_NFS volume = Some nfs \<Longrightarrow> pv_ClaimRef volume = Some ref \<Longrightarrow>
   fst (Delete_ns volume w) \<noteq> NilPointerPanic"
  by (simp add: Delete_ns_def Let_def split: prod.split option.split)

text \<open>
  C10, as stated, fails in the second variant: a descriptor with an NFS source and a nil
  \<^verbatim>\<open>ClaimRef\<close>, on a host that refuses the mount, gets the mount error back;
  \<^verbatim>\<open>ClaimRef\<close> is never read.
\<close>

theorem Delete_ns_nil_ClaimRef_counterexample:
  "pv_NFS pv1_ns \<noteq> None \<and> pv_ClaimRef pv1_ns = None
   \<and> fst (Delete_ns pv1_ns refusing_host_ns) = Return (Some (ExitError 32))"
  by (simp add: Delete_ns_def pv1_ns_def refusing_host_ns_def empty_host_def eval_defs)

text \<open>
  C10, amended. A descriptor with a nil NFS source makes \<^verbatim>\<open>Delete\<close> panic on a nil
  pointer, in both variants, before the host is touched; with an NFS source,
  \<^verbatim>\<open>Delete\<close> of \<^verbatim>\<open>provisioner.go\<close> never panics. In the second variant a descriptor
  with an NFS source and a nil \<^verbatim>\<open>ClaimRef\<close> panics exactly when \<^verbatim>\<open>ensureMount\<close>
  returns no error (otherwise the mount error is returned), and with both fields present
  it never panics.
\<close>

theorem Delete_nil_fields:
  "(pv_NFS a = None \<longrightarrow>
      Delete a w = (NilPointerPanic, w) \<and> Delete_ns a w = (NilPointerPanic, w))
 \<and> (pv_NFS b \<noteq> None \<longrightarrow> fst (Delete b w) \<noteq> NilPointerPanic)
 \<and> (pv_NFS c = Some nfs \<and> pv_ClaimRef c = None \<longrightarrow>
      (fst (Delete_ns c w) = NilPointerPanic
       \<longleftrightarrow> fst (ensureMount_ns (nfs_Server nfs) (path_Dir (nfs_Path nfs))
                  (filepath_Join [mountPath, nfs_Server nfs]) w) = None))
 \<and> (pv_NFS d \<noteq> None \<and> pv_ClaimRef d \<noteq> None \<longrightarrow>
      fst (Delete_ns d w) \<noteq> NilPointerPanic)"
proof (intro conjI impI)
  assume "pv_NFS a = None"
  then show "Delete a w = (NilPointerPanic, w)" "Delete_ns a w = (NilPointerPanic, w)"
    by (simp_all add: Delete_no_NFS Delete_ns_no_NFS)
next
  assume "pv_NFS b \<noteq> None"
  then show "fst (Delete b w) \<noteq> NilPointerPanic"
    using Delete_NFS_returns by blast
next
  assume h: "pv_NFS c = Some nfs \<and> pv_ClaimRef c = None"
  obtain r w1 where e: "ensureMount_ns (nfs_Server nfs) (path_Dir (nfs_Path nfs))
     (filepath_Join [mountPath, nfs_Server nfs]) w = (r, w1)"
    by (cases "ensureMount_ns (nfs_Server nfs) (path_Dir (nfs_Path nfs))
     (filepath_Join [mountPath, nfs_Server nfs]) w")
  show "fst (Delete_ns c w) = NilPointerPanic
       \<longleftrightarrow> fst (ensureMount_ns (nfs_Server nfs) (path_Dir (nfs_Path nfs))
                  (filepath_Join [mountPath, nfs_Server nfs]) w) = None"
  proof (cases r)
    case None
    with h e show ?thesis using Delete_ns_no_ClaimRef [of c nfs w w1] by simp
  next
    case (Some err)
    with h e show ?thesis using Delete_ns_mount_error [of c nfs w err w1] by simp
  qed
next
  assume "pv_NFS d \<noteq> None \<and> pv_ClaimRef d \<noteq> None"
  then show "fst (Delete_ns d w) \<noteq> NilPointerPanic"
    using Delete_ns_ClaimRef_returns by blast
qed

theorem Delete_nil_fields_witness:
  "pv_NFS (pv1\<lparr>pv_NFS := None\<rparr>) = None
   \<and> Delete (pv1\<lparr>pv_NFS := None\<rparr>) empty_host = (NilPointerPanic, empty_host)
   \<and> Delete_ns (pv1\<lparr>pv_NFS := None\<rparr>) empty_host = (NilPointerPanic, empty_host)
   \<and> pv_NFS pv1 \<noteq> None
   \<and> fst (Delete pv1 empty_host) \<noteq> NilPointerPanic
   \<and> pv_NFS pv1_ns \<noteq> None \<and> pv_ClaimRef pv1_ns = None
   \<and> fst (Delete_ns pv1_ns empty_host) = NilPointerPanic
   \<and> pv_ClaimRef (pv1_ns\<lparr>pv_ClaimRef := Some \<lparr>ref_Namespace = ''default''\<rparr>\<rparr>) \<noteq> None
   \<and> fst (Delete_ns (pv1_ns\<lparr>pv_ClaimRef := Some \<lparr>ref_Namespace = ''default''\<rparr>\<rparr>) empty_host)
       \<noteq> NilPointerPanic"
proof -
  have n: "pv_NFS pv1_ns = Some \<lparr>nfs_Server = ''nfs1'', nfs_Path = ''/export/default-pv-1'',
      nfs_ReadOnly = False\<rparr>"
    and c: "pv_ClaimRef pv1_ns = None"
    by (simp_all add: pv1_ns_def)
  have d: "path_Dir ''/export/default-pv-1'' = ''/export''"
    by (simp add: eval_defs)
  have j: "filepath_Join [mountPath, ''nfs1''] = ''/persistentvolumes/nfs1''"
    by (simp add: eval_defs)
  from Delete_nil_fields [of "pv1\<lparr>pv_NFS := None\<rparr>" empty_host pv1 pv1_ns
      "\<lparr>nfs_Server = ''nfs1'', nfs_Path = ''/export/default-pv-1'', nfs_ReadOnly = False\<rparr>"
      "pv1_ns\<lparr>pv_ClaimRef := Some \<lparr>ref_Namespace = ''default''\<rparr>\<rparr>"]
    n c d j ensureMount_ns_empty_host
  show ?thesis by (simp add: pv1_def)
qed

section \<open>The mount point\<close>

lemma upperhex_inj:
  assumes "i < 16" "j < 16" "upperhex i = upperhex j"
  shows "i = j"
proof -
  have d: "distinct ''0123456789ABCDEF''" by simp
  have l: "length ''0123456789ABCDEF'' = 16" by simp
  from assms show ?thesis
    unfolding upperhex_def using nth_eq_iff_index_eq [OF d, of i j] l by simp
qed

lemma hex_pair_inj:
  assumes "upperhex ((of_char a :: nat) div 16) = upperhex ((of_char b :: nat) div 16)"
    and "upperhex ((of_char a :: nat) mod 16) = upperhex ((of_char b :: nat) mod 16)"
  shows "a = b"
proof -
  have "(of_char a :: nat) < 256" "(of_char b :: nat) < 256" by simp_all
  then have "(of_char a :: nat) div 16 < 16" "(of_char b :: nat) div 16 < 16" by arith+
  with assms(1) have q: "(of_char a :: nat) div 16 = of_char b div 16"
    using upperhex_inj by blast
  have "(of_char a :: nat) mod 16 < 16" "(of_char b :: nat) mod 16 < 16" by simp_all
  with assms(2) have r: "(of_char a :: nat) mod 16 = of_char b mod 16"
    using upperhex_inj by blast
  from q r have "(of_char a :: nat) = of_char b"
    by (metis div_mult_mod_eq)
  then show ?thesis by simp
qed

lemma shouldEscape_plus: "shouldEscape CHR ''+''" and shouldEscape_percent: "shouldEscape CHR ''%''"
  by (simp_all add: shouldEscape_def)

lemma escape_byte_prefix_free:
  assumes "escape_byte a @ xs = escape_byte b @ ys"
  shows "a = b \<and> xs = ys"
proof -
  consider (space) "a = CHR '' ''" | (hex) "a \<noteq> CHR '' ''" "shouldEscape a"
    | (plain) "a \<noteq> CHR '' ''" "\<not> shouldEscape a" by blast
  then show ?thesis
  proof cases
    case space
    with assms have "CHR ''+'' # xs = escape_byte b @ ys" by (simp add: escape_byte_def)
    then show ?thesis using space shouldEscape_plus
      by (auto simp add: escape_byte_def split: if_splits)
  next
    case hex
    with assms have e: "CHR ''%'' # upperhex ((of_char a :: nat) div 16)
        # upperhex ((of_char a :: nat) mod 16) # xs = escape_byte b @ ys"
      by (simp add: escape_byte_def)
    show ?thesis
    proof (cases "b = CHR '' ''")
      case True
      with e show ?thesis by (simp add: escape_byte_def)
    next
      case False
      show ?thesis
      proof (cases "shouldEscape b")
        case True
        with False e show ?thesis using hex_pair_inj [of a b]
          by (simp add: escape_byte_def)
      next
        case nb: False
        with False e have "b = CHR ''%''" by (simp add: escape_byte_def)
        with nb shouldEscape_percent show ?thesis by simp
      qed
    qed
  next
    case plain
    with assms have e: "a # xs = escape_byte b @ ys" by (simp add: escape_byte_def)
    show ?thesis
    proof (cases "b = CHR '' ''")
      case True
      with e have "a = CHR ''+''" by (simp add: escape_byte_def)
      with plain shouldEscape_plus show ?thesis by simp
    next
      case False
      show ?thesis
      proof (cases "shouldEscape b")
        case True
        with False e have "a = CHR ''%''" by (simp add: escape_byte_def)
        with plain shouldEscape_percent show ?thesis by simp
      next
        case nb: False
        with False e show ?thesis by (simp add: escape_byte_def)
      qed
    qed
  qed
qed

lemma escape_byte_nonempty: "escape_byte c \<noteq> []"
  by (simp add: escape_byte_def)

lemma QueryEscape_inj: "QueryEscape s = QueryEscape t \<Longrightarrow> s = t"
proof (induction s arbitrary: t)
  case Nil
  then show ?case by (cases t) (simp_all add: escape_byte_nonempty)
next
  case (Cons c cs)
  show ?case
  proof (cases t)
    case Nil
    with Cons.prems show ?thesis by (simp add: escape_byte_nonempty)
  next
    case (Cons d ds)
    with Cons.prems have "escape_byte c @ QueryEscape cs = escape_byte d @ QueryEscape ds"
      by simp
    from escape_byte_prefix_free [OF this] Cons.IH [of ds] Cons show ?thesis by simp
  qed
qed

lemma mountPoint_inj: "mountPoint server p1 = mountPoint server p2 \<longleftrightarrow> p1 = p2"
  using QueryEscape_inj by (auto simp add: mountPoint_def)

text \<open>
  C3 holds for \<^verbatim>\<open>mountPoint\<close> of \<^verbatim>\<open>provisioner.go\<close> (lemma \<open>mountPoint_inj\<close>: the
  escaped remote path is part of the mount point, and the escaping is injective). The
  second variant mounts every export of a server at \<^verbatim>\<open>/persistentvolumes/<server>\<close>:
  after \<^verbatim>\<open>nfs1:/export\<close> has been mounted, a request for \<^verbatim>\<open>nfs1:/other\<close> finds the
  mount point listed, runs no mount, creates its directory inside the first export, and
  returns a descriptor that points into \<^verbatim>\<open>/other\<close>.
\<close>

theorem Provision_ns_shares_mount_point:
  "mountPoint_ns ''nfs1'' ''/export'' = mountPoint_ns ''nfs1'' ''/other''
   \<and> \<not> isl (fst (Provision_ns request_pv2_other provisioned_host_ns))
   \<and> pv_NFS (projr (fst (Provision_ns request_pv2_other provisioned_host_ns)))
       = Some \<lparr>nfs_Server = ''nfs1'', nfs_Path = ''/other/default-pv-2'', nfs_ReadOnly = False\<rparr>
   \<and> mount_calls (snd (Provision_ns request_pv2_other provisioned_host_ns))
       = [(''nfs1:/export'', ''/persistentvolumes/nfs1'')]
   \<and> ''/persistentvolumes/nfs1/default-pv-2''
       \<in> dirs (snd (Provision_ns request_pv2_other provisioned_host_ns))"
  by (simp add: mountPoint_ns_def Provision_ns_def request_pv2_other_def request_pv1_def
      claim_5Gi_def provisioned_host_ns_def eval_defs)

section \<open>Deleting\<close>

lemma Delete_pv1: "Delete pv1 provisioned_host = (Return None, archived_host)"
  by (simp add: Delete_def pv1_def provisioned_host_def archived_host_def eval_defs
      insert_commute)

lemma Delete_ns_pv1:
  "Delete_ns pv1_ns_bound provisioned_host_ns = (Return None, archived_host_ns)"
  by (simp add: Delete_ns_def pv1_ns_bound_def pv1_ns_def provisioned_host_ns_def
      archived_host_ns_def eval_defs insert_commute)

lemma Delete_unfold:
  assumes "pv_NFS volume = Some nfs"
    and "ensureMount (nfs_Server nfs) (path_Dir (nfs_Path nfs)) w = ((mp, None), w1)"
  shows "Delete volume w =
     (case os_Rename
        (filepath_Join [mp, pvName (index_string (pv_Labels volume) ''io.wise2c.tenant'')
           (index_string (pv_Labels volume) ''io.wise2c.stack'')
           (index_string (pv_Labels volume) ''io.wise2c.service'') (pv_Name volume)])
        (filepath_Join [mp, ''archived-'' @ pvName (index_string (pv_Labels volume) ''io.wise2c.tenant'')
           (index_string (pv_Labels volume) ''io.wise2c.stack'')
           (index_string (pv_Labels volume) ''io.wise2c.service'') (pv_Name volume)]) w1
      of (r, w2) \<Rightarrow> (Return r, w2))"
  using assms by (simp add: Delete_def Let_def)

lemma Delete_ns_unfold:
  assumes "pv_NFS volume = Some nfs" and "pv_ClaimRef volume = Some ref"
    and "ensureMount_ns (nfs_Server nfs) (path_Dir (nfs_Path nfs))
           (filepath_Join [mountPath, nfs_Server nfs]) w = (None, w1)"
  shows "Delete_ns volume w =
     (case os_Rename
        (filepath_Join [mountPath, nfs_Server nfs, pvName_ns (ref_Namespace ref) (pv_Name volume)])
        (filepath_Join [mountPath, nfs_Server nfs,
           ''archived-'' @ pvName_ns (ref_Namespace ref) (pv_Name volume)]) w1
      of (r, w2) \<Rightarrow> (Return r, w2))"
  using assms by (simp add: Delete_ns_def Let_def)

lemma Delete_mount_error:
  assumes "pv_NFS volume = Some nfs"
    and "ensureMount (nfs_Server nfs) (path_Dir (nfs_Path nfs)) w = ((mp, Some e), w1)"
  shows "Delete volume w = (Return (Some e), w1)"
  using assms by (simp add: Delete_def Let_def)

text \<open>
  C8. Let the directory that \<^verbatim>\<open>Delete\<close> is about to rename not exist once the mount
  step is done (for instance because an earlier \<^verbatim>\<open>Delete\<close> has archived it). Then
  \<^verbatim>\<open>Delete\<close> returns an error and never success: the error of \<^verbatim>\<open>os.Rename\<close>,
  ``no such file or directory'', passed on unchanged, when the mount step succeeded, and
  the error of the mount step when that step already failed. Both variants. The witness
  runs \<^verbatim>\<open>Delete\<close> a second time on the host that a first, successful \<^verbatim>\<open>Delete\<close> has
  left.
\<close>

theorem Delete_missing_directory:
  "(pv_NFS a = Some nfs
      \<and> ensureMount (nfs_Server nfs) (path_Dir (nfs_Path nfs)) w = ((mp, r), w1)
      \<and> old = filepath_Join [mp, descriptor_name a]
      \<and> new = filepath_Join [mp, ''archived-'' @ descriptor_name a]
      \<and> old \<notin> dirs w1
    \<longrightarrow> Delete a w
          = (Return (Some (case r of None \<Rightarrow> LinkError ''rename'' old new ENOENT
                                  | Some e \<Rightarrow> e)), w1))
 \<and> (pv_NFS b = Some nfs' \<and> pv_ClaimRef b = Some ref
      \<and> ensureMount_ns (nfs_Server nfs') (path_Dir (nfs_Path nfs'))
           (filepath_Join [mountPath, nfs_Server nfs']) v = (r', v1)
      \<and> old' = filepath_Join [mountPath, nfs_Server nfs',
                  pvName_ns (ref_Namespace ref) (pv_Name b)]
      \<and> new' = filepath_Join [mountPath, nfs_Server nfs',
                  ''archived-'' @ pvName_ns (ref_Namespace ref) (pv_Name b)]
      \<and> old' \<notin> dirs v1
    \<longrightarrow> Delete_ns b v
          = (Return (Some (case r' of None \<Rightarrow> LinkError ''rename'' old' new' ENOENT
                                   | Some e \<Rightarrow> e)), v1))"
proof (intro conjI impI)
  assume h: "pv_NFS a = Some nfs
      \<and> ensureMount (nfs_Server nfs) (path_Dir (nfs_Path nfs)) w = ((mp, r), w1)
      \<and> old = filepath_Join [mp, descriptor_name a]
      \<and> new = filepath_Join [mp, ''archived-'' @ descriptor_name a]
      \<and> old \<notin> dirs w1"
  then have n: "pv_NFS a = Some nfs"
    and e: "ensureMount (nfs_Server nfs) (path_Dir (nfs_Path nfs)) w = ((mp, r), w1)"
    and o: "old = filepath_Join [mp, descriptor_name a]"
    and a: "new = filepath_Join [mp, ''archived-'' @ descriptor_name a]"
    and od: "old \<notin> dirs w1"
    by blast+
  from od have "\<not> is_dir w1 old" unfolding o is_dir_Join by blast
  then have m: "os_Rename old new w1 = (Some (LinkError ''rename'' old new ENOENT), w1)"
    by (rule os_Rename_missing)
  show "Delete a w = (Return (Some (case r of None \<Rightarrow> LinkError ''rename'' old new ENOENT
                                  | Some e \<Rightarrow> e)), w1)"
  proof (cases r)
    case None
    with e have "ensureMount (nfs_Server nfs) (path_Dir (nfs_Path nfs)) w = ((mp, None), w1)"
      by simp
    from Delete_unfold [OF n this] m None show ?thesis
      unfolding o a descriptor_name_def by (simp del: filepath_Join.simps)
  next
    case (Some err)
    with e have "ensureMount (nfs_Server nfs) (path_Dir (nfs_Path nfs)) w = ((mp, Some err), w1)"
      by simp
    from Delete_mount_error [OF n this] Some show ?thesis by simp
  qed
next
  assume h: "pv_NFS b = Some nfs' \<and> pv_ClaimRef b = Some ref
      \<and> ensureMount_ns (nfs_Server nfs') (path_Dir (nfs_Path nfs'))
           (filepath_Join [mountPath, nfs_Server nfs']) v = (r', v1)
      \<and> old' = filepath_Join [mountPath, nfs_Server nfs',
                  pvName_ns (ref_Namespace ref) (pv_Name b)]
      \<and> new' = filepath_Join [mountPath, nfs_Server nfs',
                  ''archived-'' @ pvName_ns (ref_Namespace ref) (pv_Name b)]
      \<and> old' \<notin> dirs v1"
  then have n: "pv_NFS b = Some nfs'" and c: "pv_ClaimRef b = Some ref"
    and e: "ensureMount_ns (nfs_Server nfs') (path_Dir (nfs_Path nfs'))
           (filepath_Join [mountPath, nfs_Server nfs']) v = (r', v1)"
    and o: "old' = filepath_Join [mountPath, nfs_Server nfs',
                  pvName_ns (ref_Namespace ref) (pv_Name b)]"
    and a: "new' = filepath_Join [mountPath, nfs_Server nfs',
                  ''archived-'' @ pvName_ns (ref_Namespace ref) (pv_Name b)]"
    and od: "old' \<notin> dirs v1"
    by blast+
  from od have "\<not> is_dir v1 old'" unfolding o is_dir_Join by blast
  then have m: "os_Rename old' new' v1 = (Some (LinkError ''rename'' old' new' ENOENT), v1)"
    by (rule os_Rename_missing)
  show "Delete_ns b v = (Return (Some (case r' of None \<Rightarrow> LinkError ''rename'' old' new' ENOENT
                                   | Some e \<Rightarrow> e)), v1)"
  proof (cases r')
    case None
    with e have "ensureMount_ns (nfs_Server nfs') (path_Dir (nfs_Path nfs'))
           (filepath_Join [mountPath, nfs_Server nfs']) v = (None, v1)"
      by simp
    from Delete_ns_unfold [OF n c this] m None show ?thesis
      unfolding o a by (simp del: filepath_Join.simps)
  next
    case (Some err)
    with e have "ensureMount_ns (nfs_Server nfs') (path_Dir (nfs_Path nfs'))
           (filepath_Join [mountPath, nfs_Server nfs']) v = (Some err, v1)"
      by simp
    from Delete_ns_mount_error [OF n this] Some show ?thesis by simp
  qed
qed

lemma ensureMount_archived_host:
  "ensureMount ''nfs1'' ''/export'' archived_host
     = ((''/persistentvolumes/nfs1/%2Fexport'', None), archived_host)"
  by (simp add: archived_host_def eval_defs)

lemma ensureMount_ns_archived_host:
  "ensureMount_ns ''nfs1'' ''/export'' ''/persistentvolumes/nfs1'' archived_host_ns
     = (None, archived_host_ns)"
  by (simp add: archived_host_ns_def eval_defs)

theorem Delete_missing_directory_witness:
  "Delete pv1 provisioned_host = (Return None, archived_host)
   \<and> ''/persistentvolumes/nfs1/%2Fexport/acme-web-svc-pv-1'' \<notin> dirs archived_host
   \<and> Delete pv1 archived_host
       = (Return (Some (LinkError ''rename''
            ''/persistentvolumes/nfs1/%2Fexport/acme-web-svc-pv-1''
            ''/persistentvolumes/nfs1/%2Fexport/archived-acme-web-svc-pv-1'' ENOENT)),
          archived_host)
   \<and> Delete_ns pv1_ns_bound provisioned_host_ns = (Return None, archived_host_ns)
   \<and> ''/persistentvolumes/nfs1/default-pv-1'' \<notin> dirs archived_host_ns
   \<and> Delete_ns pv1_ns_bound archived_host_ns
       = (Return (Some (LinkError ''rename''
            ''/persistentvolumes/nfs1/default-pv-1''
            ''/persistentvolumes/nfs1/archived-default-pv-1'' ENOENT)),
          archived_host_ns)"
proof -
  have n: "pv_NFS pv1 = Some \<lparr>nfs_Server = ''nfs1'', nfs_Path = ''/export/acme-web-svc-pv-1'',
      nfs_ReadOnly = False\<rparr>"
    by (simp add: pv1_def)
  have n': "pv_NFS pv1_ns_bound = Some \<lparr>nfs_Server = ''nfs1'',
      nfs_Path = ''/export/default-pv-1'', nfs_ReadOnly = False\<rparr>"
    and c: "pv_ClaimRef pv1_ns_bound = Some \<lparr>ref_Namespace = ''default''\<rparr>"
    by (simp_all add: pv1_ns_bound_def pv1_ns_def)
  have d: "path_Dir ''/export/acme-web-svc-pv-1'' = ''/export''"
    "path_Dir ''/export/default-pv-1'' = ''/export''"
    by (simp_all add: eval_defs)
  have j: "filepath_Join [mountPath, ''nfs1''] = ''/persistentvolumes/nfs1''"
    by (simp add: eval_defs)
  have o: "filepath_Join [''/persistentvolumes/nfs1/%2Fexport'', descriptor_name pv1]
      = ''/persistentvolumes/nfs1/%2Fexport/acme-web-svc-pv-1''"
    "filepath_Join [''/persistentvolumes/nfs1/%2Fexport'', ''archived-'' @ descriptor_name pv1]
      = ''/persistentvolumes/nfs1/%2Fexport/archived-acme-web-svc-pv-1''"
    by (simp_all add: descriptor_name_def pv1_def eval_defs)
  have o': "filepath_Join [mountPath, ''nfs1'', pvName_ns ''default'' (pv_Name pv1_ns_bound)]
      = ''/persistentvolumes/nfs1/default-pv-1''"
    "filepath_Join [mountPath, ''nfs1'', ''archived-'' @ pvName_ns ''default'' (pv_Name pv1_ns_bound)]
      = ''/persistentvolumes/nfs1/archived-default-pv-1''"
    by (simp_all add: pv1_ns_bound_def pv1_ns_def eval_defs)
  have m: "''/persistentvolumes/nfs1/%2Fexport/acme-web-svc-pv-1'' \<notin> dirs archived_host"
    "''/persistentvolumes/nfs1/default-pv-1'' \<notin> dirs archived_host_ns"
    by (simp_all add: archived_host_def archived_host_ns_def)
  from Delete_missing_directory [of pv1
      "\<lparr>nfs_Server = ''nfs1'', nfs_Path = ''/export/acme-web-svc-pv-1'', nfs_ReadOnly = False\<rparr>"
      archived_host "''/persistentvolumes/nfs1/%2Fexport''" None archived_host
      "''/persistentvolumes/nfs1/%2Fexport/acme-web-svc-pv-1''"
      "''/persistentvolumes/nfs1/%2Fexport/archived-acme-web-svc-pv-1''"
      pv1_ns_bound
      "\<lparr>nfs_Server = ''nfs1'', nfs_Path = ''/export/default-pv-1'', nfs_ReadOnly = False\<rparr>"
      "\<lparr>ref_Namespace = ''default''\<rparr>" archived_host_ns None archived_host_ns
      "''/persistentvolumes/nfs1/default-pv-1''"
      "''/persistentvolumes/nfs1/archived-default-pv-1''"]
    n n' c d j o o' m ensureMount_archived_host ensureMount_ns_archived_host
    Delete_pv1 Delete_ns_pv1
  show ?thesis by (simp del: filepath_Join.simps)
qed

section \<open>Effects of Provision on the host\<close>




lemma Provision_unfold:
  assumes "accepted options server path"
  shows "Provision options w =
     (case ensureMount server path w of
        ((mp, Some err), w1) \<Rightarrow> (Inl (Errorf ''unable to mount NFS volume: '' err), w1)
      | ((mp, None), w1) \<Rightarrow>
          (case os_MkdirAll (filepath_Join [mp, volume_name options]) w1 of
             (Some err, w2) \<Rightarrow>
               (Inl (Concat ''unable to create directory to provision new pv: '' err), w2)
           | (None, w2) \<Rightarrow>
               (Inr \<lparr> pv_Name = opt_PVName options,
                      pv_Labels = [''io.wise2c.tenant'' \<mapsto> opt_Tenant options,
                                   ''io.wise2c.stack'' \<mapsto> opt_Stack options,
                                   ''io.wise2c.service'' \<mapsto> opt_Service options],
                      pv_PersistentVolumeReclaimPolicy = opt_PersistentVolumeReclaimPolicy options,
                      pv_AccessModes = pvc_AccessModes (opt_PVC options),
                      pv_Capacity = [ResourceStorage \<mapsto>
                        index_quantity (pvc_Requests (opt_PVC options)) ResourceStorage],
                      pv_NFS = Some \<lparr> nfs_Server = server,
                                      nfs_Path = filepath_Join [path, volume_name options],
                                      nfs_ReadOnly = False \<rparr>,
                      pv_ClaimRef = None \<rparr>, w2)))"
  using assms unfolding Provision_def accepted_def volume_name_def Let_def
  by (simp add: inMap_def index_string_def del: filepath_Join.simps
      split: prod.split option.split)

lemma Provision_mount_error:
  assumes "accepted options server path"
    and "ensureMount server path w = ((mp, Some e), w1)"
  shows "Provision options w = (Inl (Errorf ''unable to mount NFS volume: '' e), w1)"
  using assms by (simp add: Provision_unfold del: filepath_Join.simps)

lemma Provision_mkdir_error:
  assumes "accepted options server path"
    and "ensureMount server path w = ((mp, None), w1)"
    and "os_MkdirAll (filepath_Join [mp, volume_name options]) w1 = (Some e, w2)"
  shows "Provision options w
     = (Inl (Concat ''unable to create directory to provision new pv: '' e), w2)"
  using assms by (simp add: Provision_unfold del: filepath_Join.simps)

lemma Provision_success:
  assumes "accepted options server path"
    and "Provision options w = (Inr pv, w2)"
  shows "\<exists>w1. ensureMount server path w = ((mountPoint server path, None), w1)
     \<and> os_MkdirAll (filepath_Join [mountPoint server path, volume_name options]) w1 = (None, w2)"
proof -
  obtain mp r w1 where e: "ensureMount server path w = ((mp, r), w1)"
    by (cases "ensureMount server path w") auto
  then have m: "mp = mountPoint server path" by (rule ensureMount_mp)
  show ?thesis
  proof (cases r)
    case (Some err)
    with e assms show ?thesis by (simp add: Provision_mount_error)
  next
    case None
    obtain r2 w2' where k: "os_MkdirAll (filepath_Join [mp, volume_name options]) w1 = (r2, w2')"
      by (cases "os_MkdirAll (filepath_Join [mp, volume_name options]) w1")
    show ?thesis
    proof (cases r2)
      case (Some err)
      with None e k assms show ?thesis
        using Provision_mkdir_error [of options server path w mp w1 err w2'] by simp
    next
      case n2: None
      with None e k assms(2) have "w2' = w2"
        by (simp add: Provision_unfold [OF assms(1)] del: filepath_Join.simps)
      with None n2 e k m show ?thesis by (simp del: filepath_Join.simps)
    qed
  qed
qed

lemma accepted_request_pv1: "accepted request_pv1 ''nfs1'' ''/export''"
  by (simp add: accepted_def request_pv1_def claim_5Gi_def)

lemma volume_name_request_pv1: "volume_name request_pv1 = ''acme-web-svc-pv-1''"
  by (simp add: volume_name_def request_pv1_def pvName_def)





lemma mountPoint_nfs1_export:
  "mountPoint ''nfs1'' ''/export'' = ''/persistentvolumes/nfs1/%2Fexport''"
  by (simp add: eval_defs)




text \<open>
  A failing \<^verbatim>\<open>os.MkdirAll\<close> keeps the parents it has made: on a host that refuses to
  create \<^verbatim>\<open>/persistentvolumes/nfs1\<close>, the directory \<^verbatim>\<open>/persistentvolumes\<close> is there
  after the failure.
\<close>

lemma os_MkdirAll_keeps_parents:
  "os_MkdirAll ''/persistentvolumes/nfs1/%2Fexport''
     (empty_host\<lparr>mkdir_denied := {''/persistentvolumes/nfs1''}\<rparr>)
   = (Some (PathError ''mkdir'' ''/persistentvolumes/nfs1'' EACCES),
      empty_host\<lparr>mkdir_denied := {''/persistentvolumes/nfs1''},
                 dirs := {''/'', ''/persistentvolumes''}\<rparr>)"
  by (simp add: empty_host_def eval_defs insert_commute)




section \<open>Delete after Provision\<close>

lemma moved_image:
  assumes "length old < length new" "old \<in> S"
  shows "old \<notin> moved old new ` S" and "new \<in> moved old new ` S"
proof -
  have "moved old new old = new" by (simp add: moved_def)
  with assms(2) show "new \<in> moved old new ` S" by (metis imageI)
  show "old \<notin> moved old new ` S"
  proof
    assume "old \<in> moved old new ` S"
    then obtain p where p: "p \<in> S" "moved old new p = old" by auto
    show False
    proof (cases "p = old")
      case True
      with p assms(1) show False by (simp add: moved_def)
    next
      case False
      show False
      proof (cases "below old p")
        case True
        with False p have "new @ drop (length old) p = old" by (simp add: moved_def)
        then have "length new \<le> length old" by (metis length_append le_add1)
        with assms(1) show False by simp
      next
        case nb: False
        with False p show False by (simp add: moved_def)
      qed
    qed
  qed
qed

lemma not_below_archived:
  assumes "CHR ''/'' \<notin> set n"
  shows "\<not> below (B @ n) (B @ ''archived-'' @ n)"
proof
  assume "below (B @ n) (B @ ''archived-'' @ n)"
  then have "take (Suc (length (B @ n))) (B @ ''archived-'' @ n) = (B @ n) @ ''/''"
    by (simp add: below_def)
  then have "take (Suc (length n)) (''archived-'' @ n) = n @ ''/''" by simp
  then have "CHR ''/'' \<in> set (take (Suc (length n)) (''archived-'' @ n))" by simp
  then have "CHR ''/'' \<in> set (''archived-'' @ n)" by (rule in_set_takeD)
  with assms show False by simp
qed

lemma last_elements_append:
  assumes "CHR ''/'' \<notin> set n" "B = [] \<or> (\<exists>b. B = b @ ''/'')"
  shows "last (elements (B @ n)) = n"
proof -
  from assms(2) show ?thesis
  proof
    assume "B = []"
    with assms(1) show ?thesis by (simp add: elements_no_slash)
  next
    assume "\<exists>b. B = b @ ''/''"
    then obtain b where "B = b @ ''/''" by blast
    then have "elements (B @ n) = elements b @ elements n"
      using elements_append_slash [of b n] by simp
    with assms(1) show ?thesis by (simp add: elements_no_slash)
  qed
qed

text \<open>
  What a successful rename of \<open>base/n\<close> to \<open>base/archived-n\<close> does, and when it
  succeeds.
\<close>

lemma archive_rename:
  assumes "os_Rename (B @ n) (B @ ''archived-'' @ n) w = (None, w')"
    and "Clean (B @ n) = B @ n" "Clean (B @ ''archived-'' @ n) = B @ ''archived-'' @ n"
  shows "B @ n \<notin> dirs w'" and "B @ ''archived-'' @ n \<in> dirs w'"
    and "dirs w' = moved (B @ n) (B @ ''archived-'' @ n) ` dirs w"
    and "B @ ''archived-'' @ n \<notin> dirs w"
proof -
  have l: "length (B @ n) < length (B @ ''archived-'' @ n)" by simp
  then have ne: "B @ n \<noteq> B @ ''archived-'' @ n" by (metis less_irrefl)
  from os_Rename_None [OF assms ne]
  have i: "B @ n \<in> dirs w" and d: "dirs w' = moved (B @ n) (B @ ''archived-'' @ n) ` dirs w"
    and "B @ ''archived-'' @ n \<notin> dirs w"
    by blast+
  then show "B @ ''archived-'' @ n \<notin> dirs w" by blast
  from d show "dirs w' = moved (B @ n) (B @ ''archived-'' @ n) ` dirs w" .
  from moved_image [OF l i] d
  show "B @ n \<notin> dirs w'" and "B @ ''archived-'' @ n \<in> dirs w'" by simp_all
qed

lemma archive_rename_ok:
  assumes "Clean (B @ n) = B @ n" "Clean (B @ ''archived-'' @ n) = B @ ''archived-'' @ n"
    and "B @ n \<in> dirs w" "B @ ''archived-'' @ n \<notin> dirs w"
    and "path_Dir (B @ ''archived-'' @ n) \<in> dirs w"
    and "path_element n" "B = [] \<or> (\<exists>b. B = b @ ''/'')"
    and "B @ n \<notin> rename_denied w"
  shows "fst (os_Rename (B @ n) (B @ ''archived-'' @ n) w) = None"
proof -
  from assms(6) have ns: "CHR ''/'' \<notin> set n" and nn: "n \<notin> {[], ''.'', ''..''}"
    by (auto simp add: path_element_def)
  from last_elements_append [OF ns assms(7)] nn
  have l: "last (elements (B @ n)) \<notin> {[], ''.'', ''..''}" by simp
  from os_Rename_ok [OF assms(1,2,3,4,5) l not_below_archived [OF ns] assms(8)]
  show ?thesis by simp
qed

lemma mountPoint_nonempty: "mountPoint server path \<noteq> []"
  by (simp add: mountPoint_def mountPath_def)

lemma Delete_as_rename:
  assumes "pv_NFS volume = Some nfs"
    and "ensureMount (nfs_Server nfs) (path_Dir (nfs_Path nfs)) w = ((mp, None), w1)"
  shows "Delete volume w =
     (case os_Rename (filepath_Join [mp, descriptor_name volume])
        (filepath_Join [mp, ''archived-'' @ descriptor_name volume]) w1
      of (r, w2) \<Rightarrow> (Return r, w2))"
  using assms unfolding descriptor_name_def by (rule Delete_unfold)

lemma Delete_success:
  assumes "pv_NFS volume = Some nfs" "Delete volume w = (Return None, w3)"
    and "mp = mountPoint (nfs_Server nfs) (path_Dir (nfs_Path nfs))"
  shows "\<exists>w1. ensureMount (nfs_Server nfs) (path_Dir (nfs_Path nfs)) w = ((mp, None), w1)
     \<and> os_Rename (filepath_Join [mp, descriptor_name volume])
          (filepath_Join [mp, ''archived-'' @ descriptor_name volume]) w1 = (None, w3)"
proof -
  obtain m r w1 where e: "ensureMount (nfs_Server nfs) (path_Dir (nfs_Path nfs)) w = ((m, r), w1)"
    by (cases "ensureMount (nfs_Server nfs) (path_Dir (nfs_Path nfs)) w") auto
  with assms(3) have m: "m = mp" using ensureMount_mp by blast
  show ?thesis
  proof (cases r)
    case (Some err)
    with e assms show ?thesis using Delete_mount_error [of volume nfs w m err w1] by simp
  next
    case None
    with e m assms(1,2) show ?thesis
      using Delete_as_rename [of volume nfs w mp w1]
      by (simp del: filepath_Join.simps split: prod.splits)
  qed
qed

lemma Provision_ns_unfold:
  assumes "accepted options server path"
  shows "Provision_ns options w =
     (case ensureMount_ns server path (filepath_Join [mountPath, server]) w of
        (Some err, w1) \<Rightarrow> (Inl (Errorf ''unable to mount NFS volume: '' err), w1)
      | (None, w1) \<Rightarrow>
          (case os_MkdirAll
                  (filepath_Join [filepath_Join [mountPath, server], volume_name_ns options]) w1 of
             (Some err, w2) \<Rightarrow>
               (Inl (Concat ''unable to create directory to provision new pv: '' err), w2)
           | (None, w2) \<Rightarrow>
               (Inr \<lparr> pv_Name = opt_PVName options,
                      pv_Labels = Map.empty,
                      pv_PersistentVolumeReclaimPolicy = opt_PersistentVolumeReclaimPolicy options,
                      pv_AccessModes = pvc_AccessModes (opt_PVC options),
                      pv_Capacity = [ResourceStorage \<mapsto>
                        index_quantity (pvc_Requests (opt_PVC options)) ResourceStorage],
                      pv_NFS = Some \<lparr> nfs_Server = server,
                                      nfs_Path = filepath_Join [path, volume_name_ns options],
                                      nfs_ReadOnly = False \<rparr>,
                      pv_ClaimRef = None \<rparr>, w2)))"
  using assms unfolding Provision_ns_def accepted_def volume_name_ns_def Let_def
  by (simp add: inMap_def index_string_def del: filepath_Join.simps
      split: prod.split option.split)

lemma Provision_ns_success:
  assumes "accepted options server path"
    and "Provision_ns options w = (Inr pv, w2)"
  shows "\<exists>w1. ensureMount_ns server path (filepath_Join [mountPath, server]) w = (None, w1)
     \<and> os_MkdirAll (filepath_Join [filepath_Join [mountPath, server], volume_name_ns options])
          w1 = (None, w2)"
proof -
  obtain r w1 where e: "ensureMount_ns server path (filepath_Join [mountPath, server]) w = (r, w1)"
    by (cases "ensureMount_ns server path (filepath_Join [mountPath, server]) w")
  show ?thesis
  proof (cases r)
    case (Some err)
    with e assms show ?thesis
      by (simp add: Provision_ns_unfold del: filepath_Join.simps)
  next
    case None
    obtain r2 w2' where k: "os_MkdirAll
        (filepath_Join [filepath_Join [mountPath, server], volume_name_ns options]) w1 = (r2, w2')"
      by (cases "os_MkdirAll
        (filepath_Join [filepath_Join [mountPath, server], volume_name_ns options]) w1")
    show ?thesis
    proof (cases r2)
      case (Some err)
      with None e k assms show ?thesis
        by (simp add: Provision_ns_unfold del: filepath_Join.simps)
    next
      case n2: None
      with None e k assms(2) have "w2' = w2"
        by (simp add: Provision_ns_unfold [OF assms(1)] del: filepath_Join.simps)
      with None n2 e k show ?thesis by (simp del: filepath_Join.simps)
    qed
  qed
qed

lemma Delete_ns_success:
  assumes "pv_NFS volume = Some nfs" "pv_ClaimRef volume = Some ref"
    and "Delete_ns volume w = (Return None, w3)"
  shows "\<exists>w1. ensureMount_ns (nfs_Server nfs) (path_Dir (nfs_Path nfs))
           (filepath_Join [mountPath, nfs_Server nfs]) w = (None, w1)
     \<and> os_Rename
          (filepath_Join [mountPath, nfs_Server nfs, pvName_ns (ref_Namespace ref) (pv_Name volume)])
          (filepath_Join [mountPath, nfs_Server nfs,
             ''archived-'' @ pvName_ns (ref_Namespace ref) (pv_Name volume)]) w1 = (None, w3)"
proof -
  obtain r w1 where e: "ensureMount_ns (nfs_Server nfs) (path_Dir (nfs_Path nfs))
           (filepath_Join [mountPath, nfs_Server nfs]) w = (r, w1)"
    by (cases "ensureMount_ns (nfs_Server nfs) (path_Dir (nfs_Path nfs))
           (filepath_Join [mountPath, nfs_Server nfs]) w")
  show ?thesis
  proof (cases r)
    case (Some err)
    with e assms show ?thesis using Delete_ns_mount_error [of volume nfs w err w1] by simp
  next
    case None
    with e assms show ?thesis
      using Delete_ns_unfold [of volume nfs ref w w1]
      by (simp del: filepath_Join.simps split: prod.splits)
  qed
qed

lemma volume_name_element:
  assumes "CHR ''/'' \<notin> set (opt_Tenant options) \<union> set (opt_Stack options)
             \<union> set (opt_Service options) \<union> set (opt_PVName options)"
  shows "path_element (volume_name options)"
    and "path_element (''archived-'' @ volume_name options)"
    and "CHR ''/'' \<notin> set (volume_name options)"
proof -
  from pvName_element [OF assms]
  show "path_element (volume_name options)"
    and "path_element (''archived-'' @ volume_name options)"
    by (simp_all add: volume_name_def)
  then show "CHR ''/'' \<notin> set (volume_name options)" by (simp add: path_element_def)
qed

lemma volume_name_ns_element:
  assumes "CHR ''/'' \<notin> set (pvc_Namespace (opt_PVC options)) \<union> set (opt_PVName options)"
  shows "path_element (volume_name_ns options)"
    and "path_element (''archived-'' @ volume_name_ns options)"
    and "CHR ''/'' \<notin> set (volume_name_ns options)"
proof -
  from pvName_ns_element [OF assms]
  show "path_element (volume_name_ns options)"
    and "path_element (''archived-'' @ volume_name_ns options)"
    by (simp_all add: volume_name_ns_def)
  then show "CHR ''/'' \<notin> set (volume_name_ns options)" by (simp add: path_element_def)
qed

lemma descriptor_name_Provision:
  assumes "Provision options w = (Inr pv, w1)"
  shows "descriptor_name pv = volume_name options"
  using Provision_Inr [OF assms]
  by (simp add: descriptor_name_def volume_name_def index_string_def)

lemma Provision_NFS:
  assumes "accepted options server path" "Provision options w = (Inr pv, w1)"
  shows "pv_NFS pv = Some \<lparr>nfs_Server = server,
      nfs_Path = filepath_Join [path, volume_name options], nfs_ReadOnly = False\<rparr>"
  using Provision_Inr [OF assms(2)] assms(1)
  by (simp add: accepted_def index_string_def volume_name_def del: filepath_Join.simps)

lemma Provision_ns_NFS:
  assumes "accepted options server path" "Provision_ns options w = (Inr pv, w1)"
  shows "pv_NFS pv = Some \<lparr>nfs_Server = server,
      nfs_Path = filepath_Join [path, volume_name_ns options], nfs_ReadOnly = False\<rparr>"
    and "pv_Name pv = opt_PVName options"
  using Provision_ns_Inr [OF assms(2)] assms(1)
  by (simp_all add: accepted_def index_string_def volume_name_ns_def del: filepath_Join.simps)

text \<open>Provision, then Delete of the descriptor, in \<^verbatim>\<open>provisioner.go\<close>.\<close>

lemma archive_after_Provision:
  assumes a: "accepted options server path"
    and p: "Provision options w = (Inr pv, w1)"
    and c: "Clean path = path"
    and f: "CHR ''/'' \<notin> set (opt_Tenant options) \<union> set (opt_Stack options)
             \<union> set (opt_Service options) \<union> set (opt_PVName options)"
  shows "mountPoint server (path_Dir (filepath_Join [path, volume_name options]))
           = mountPoint server path"
    and "descriptor_name pv = volume_name options"
    and "filepath_Join [mountPoint server path, volume_name options] \<in> dirs w1"
    and "Delete pv w2 = (Return None, w3) \<Longrightarrow>
           filepath_Join [mountPoint server path, volume_name options] \<notin> dirs w3
         \<and> filepath_Join [mountPoint server path, ''archived-'' @ volume_name options] \<in> dirs w3
         \<and> dirs w3 = moved (filepath_Join [mountPoint server path, volume_name options])
               (filepath_Join [mountPoint server path, ''archived-'' @ volume_name options])
               ` dirs (snd (ensureMount server path w2))
         \<and> filepath_Join [mountPoint server path, ''archived-'' @ volume_name options]
             \<notin> dirs (snd (ensureMount server path w2))"
    and "isMounted w1 (mountPoint server path) \<Longrightarrow>
         is_dir w1 (mountPoint server path) \<Longrightarrow>
         filepath_Join [mountPoint server path, ''archived-'' @ volume_name options]
           \<notin> dirs w1 \<Longrightarrow>
         filepath_Join [mountPoint server path, volume_name options] \<notin> rename_denied w1 \<Longrightarrow>
         fst (Delete pv w1) = Return None"
proof -
  let ?M = "mountPoint server path"
  let ?n = "volume_name options"
  note el = volume_name_element [OF f]
  have dir: "path_Dir (filepath_Join [path, ?n]) = path"
    using Dir_Join_any [OF el(1), of path] c by simp
  then show "mountPoint server (path_Dir (filepath_Join [path, ?n])) = ?M" by simp
  show dn: "descriptor_name pv = ?n" by (rule descriptor_name_Provision [OF p])
  have old: "filepath_Join [?M, ?n] = join_base ?M @ ?n"
    by (rule Join_element [OF mountPoint_nonempty el(1)])
  have new: "filepath_Join [?M, ''archived-'' @ ?n] = join_base ?M @ ''archived-'' @ ?n"
    by (rule Join_element [OF mountPoint_nonempty el(2)])
  from Provision_success [OF a p] obtain wa
    where k: "os_MkdirAll (filepath_Join [?M, ?n]) wa = (None, w1)" by blast
  from os_MkdirAll_ok [OF k]
  show made: "filepath_Join [?M, ?n] \<in> dirs w1"
    unfolding is_dir_Join by blast
  have one: "filepath_Join [?M, ?n] \<noteq> []"
    and nne: "filepath_Join [?M, ''archived-'' @ ?n] \<noteq> []"
    by (simp_all add: mountPoint_nonempty Clean_nonempty)
  have co: "Clean (join_base ?M @ ?n) = join_base ?M @ ?n"
    using Join_clean [OF one] unfolding old .
  have cn: "Clean (join_base ?M @ ''archived-'' @ ?n) = join_base ?M @ ''archived-'' @ ?n"
    using Join_clean [OF nne] unfolding new .
  note nfs = Provision_NFS [OF a p]
  {
    assume d: "Delete pv w2 = (Return None, w3)"
    from Delete_success [OF nfs d refl] dir dn obtain wb
      where e: "ensureMount server path w2 = ((?M, None), wb)"
        and r: "os_Rename (filepath_Join [?M, ?n]) (filepath_Join [?M, ''archived-'' @ ?n]) wb
                  = (None, w3)"
      by (auto simp del: filepath_Join.simps)
    from r have "os_Rename (join_base ?M @ ?n) (join_base ?M @ ''archived-'' @ ?n) wb = (None, w3)"
      by (simp only: old new)
    from archive_rename [OF this co cn] e
    show "filepath_Join [?M, ?n] \<notin> dirs w3
         \<and> filepath_Join [?M, ''archived-'' @ ?n] \<in> dirs w3
         \<and> dirs w3 = moved (filepath_Join [?M, ?n]) (filepath_Join [?M, ''archived-'' @ ?n])
               ` dirs (snd (ensureMount server path w2))
         \<and> filepath_Join [?M, ''archived-'' @ ?n] \<notin> dirs (snd (ensureMount server path w2))"
      by (simp only: old new snd_conv) simp
  }
  {
    assume m: "isMounted w1 ?M"
      and ex: "is_dir w1 ?M"
      and na: "filepath_Join [?M, ''archived-'' @ ?n] \<notin> dirs w1"
      and nd: "filepath_Join [?M, ?n] \<notin> rename_denied w1"
    from ensureMount_mounted [OF m] dir
    have e: "ensureMount (nfs_Server \<lparr>nfs_Server = server,
        nfs_Path = filepath_Join [path, ?n], nfs_ReadOnly = False\<rparr>)
        (path_Dir (nfs_Path \<lparr>nfs_Server = server,
        nfs_Path = filepath_Join [path, ?n], nfs_ReadOnly = False\<rparr>)) w1 = ((?M, None), w1)"
      by (simp del: filepath_Join.simps)
    have i: "join_base ?M @ ?n \<in> dirs w1" using made unfolding old .
    have nd': "join_base ?M @ ?n \<notin> rename_denied w1" using nd unfolding old .
    have na': "join_base ?M @ ''archived-'' @ ?n \<notin> dirs w1" using na unfolding new .
    have "path_Dir (filepath_Join [?M, ''archived-'' @ ?n]) = Clean ?M"
      by (rule Dir_Join_any [OF el(2)])
    with ex have pd: "path_Dir (join_base ?M @ ''archived-'' @ ?n) \<in> dirs w1"
      unfolding new by (simp add: is_dir_def)
    have "fst (os_Rename (join_base ?M @ ?n) (join_base ?M @ ''archived-'' @ ?n) w1) = None"
      by (rule archive_rename_ok [OF co cn i na' pd el(1) join_base_shape nd'])
    then have "fst (os_Rename (filepath_Join [?M, ?n])
        (filepath_Join [?M, ''archived-'' @ ?n]) w1) = None"
      by (simp only: old new)
    then show "fst (Delete pv w1) = Return None"
      using Delete_as_rename [OF nfs e] dn
      by (simp del: filepath_Join.simps split: prod.splits)
  }
qed

text \<open>Provision, then Delete of the descriptor with its claim reference, in the second variant.\<close>

lemma Join_mountPath_nonempty: "filepath_Join [mountPath, server] \<noteq> []"
  using Clean_nonempty [of "join_slash [mountPath, server]"] by (simp add: mountPath_def)

lemma archive_after_Provision_ns:
  assumes a: "accepted options server path"
    and p: "Provision_ns options v = (Inr pv, v1)"
    and f: "CHR ''/'' \<notin> set (pvc_Namespace (opt_PVC options)) \<union> set (opt_PVName options)"
    and b: "bound = pv\<lparr>pv_ClaimRef := Some \<lparr>ref_Namespace = pvc_Namespace (opt_PVC options)\<rparr>\<rparr>"
  shows "filepath_Join [mountPath, server, volume_name_ns options]
           = filepath_Join [filepath_Join [mountPath, server], volume_name_ns options]"
    and "pvName_ns (pvc_Namespace (opt_PVC options)) (pv_Name bound) = volume_name_ns options"
    and "filepath_Join [mountPath, server, volume_name_ns options] \<in> dirs v1"
    and "Delete_ns bound v2 = (Return None, v3) \<Longrightarrow>
           filepath_Join [mountPath, server, volume_name_ns options] \<notin> dirs v3
         \<and> filepath_Join [mountPath, server, ''archived-'' @ volume_name_ns options] \<in> dirs v3
         \<and> dirs v3 = moved (filepath_Join [mountPath, server, volume_name_ns options])
               (filepath_Join [mountPath, server, ''archived-'' @ volume_name_ns options])
               ` dirs (snd (ensureMount_ns server
                    (path_Dir (filepath_Join [path, volume_name_ns options]))
                    (filepath_Join [mountPath, server]) v2))
         \<and> filepath_Join [mountPath, server, ''archived-'' @ volume_name_ns options]
             \<notin> dirs (snd (ensureMount_ns server
                    (path_Dir (filepath_Join [path, volume_name_ns options]))
                    (filepath_Join [mountPath, server]) v2))"
    and "isMounted v1 (filepath_Join [mountPath, server]) \<Longrightarrow>
         is_dir v1 (filepath_Join [mountPath, server]) \<Longrightarrow>
         filepath_Join [mountPath, server, ''archived-'' @ volume_name_ns options]
           \<notin> dirs v1 \<Longrightarrow>
         filepath_Join [mountPath, server, volume_name_ns options] \<notin> rename_denied v1 \<Longrightarrow>
         fst (Delete_ns bound v1) = Return None"
proof -
  let ?M = "filepath_Join [mountPath, server]"
  let ?n = "volume_name_ns options"
  let ?P = "path_Dir (filepath_Join [path, ?n])"
  note el = volume_name_ns_element [OF f]
  note ne = Join_mountPath_nonempty [of server]
  show jj: "filepath_Join [mountPath, server, ?n] = filepath_Join [?M, ?n]"
    by (rule Join_Join [symmetric])
  have old: "filepath_Join [mountPath, server, ?n] = join_base ?M @ ?n"
    using Join_Join [of mountPath server ?n] Join_element [OF ne el(1)] by simp
  have new: "filepath_Join [mountPath, server, ''archived-'' @ ?n]
      = join_base ?M @ ''archived-'' @ ?n"
    using Join_Join [of mountPath server "''archived-'' @ ?n"] Join_element [OF ne el(2)]
    by simp
  have one: "filepath_Join [mountPath, server, ?n] \<noteq> []"
    and nne: "filepath_Join [mountPath, server, ''archived-'' @ ?n] \<noteq> []"
    by (simp_all add: mountPath_def Clean_nonempty)
  have co: "Clean (join_base ?M @ ?n) = join_base ?M @ ?n"
    using Join_clean [OF one] unfolding old .
  have cn: "Clean (join_base ?M @ ''archived-'' @ ?n) = join_base ?M @ ''archived-'' @ ?n"
    using Join_clean [OF nne] unfolding new .
  note nfs = Provision_ns_NFS [OF a p]
  from nfs b have bn: "pv_NFS bound = Some \<lparr>nfs_Server = server,
      nfs_Path = filepath_Join [path, ?n], nfs_ReadOnly = False\<rparr>"
    and bc: "pv_ClaimRef bound = Some \<lparr>ref_Namespace = pvc_Namespace (opt_PVC options)\<rparr>"
    and bname: "pv_Name bound = opt_PVName options"
    by (simp_all del: filepath_Join.simps)
  from bname show dn: "pvName_ns (pvc_Namespace (opt_PVC options)) (pv_Name bound) = ?n"
    by (simp add: volume_name_ns_def)
  from Provision_ns_success [OF a p] obtain va
    where k: "os_MkdirAll (filepath_Join [?M, ?n]) va = (None, v1)" by blast
  from os_MkdirAll_ok [OF k]
  have "filepath_Join [?M, ?n] \<in> dirs v1"
    unfolding is_dir_Join by blast
  then show made: "filepath_Join [mountPath, server, ?n] \<in> dirs v1"
    unfolding jj .
  {
    assume d: "Delete_ns bound v2 = (Return None, v3)"
    from Delete_ns_success [OF bn bc d] dn obtain vb
      where e: "ensureMount_ns server ?P ?M v2 = (None, vb)"
        and r: "os_Rename (filepath_Join [mountPath, server, ?n])
                  (filepath_Join [mountPath, server, ''archived-'' @ ?n]) vb = (None, v3)"
      by (auto simp del: filepath_Join.simps)
    from r have "os_Rename (join_base ?M @ ?n) (join_base ?M @ ''archived-'' @ ?n) vb = (None, v3)"
      unfolding old new .
    from archive_rename [OF this co cn] e
    show "filepath_Join [mountPath, server, ?n] \<notin> dirs v3
         \<and> filepath_Join [mountPath, server, ''archived-'' @ ?n] \<in> dirs v3
         \<and> dirs v3 = moved (filepath_Join [mountPath, server, ?n])
               (filepath_Join [mountPath, server, ''archived-'' @ ?n])
               ` dirs (snd (ensureMount_ns server ?P ?M v2))
         \<and> filepath_Join [mountPath, server, ''archived-'' @ ?n]
             \<notin> dirs (snd (ensureMount_ns server ?P ?M v2))"
      unfolding old new by simp
  }
  {
    assume m: "isMounted v1 ?M"
      and ex: "is_dir v1 ?M"
      and na: "filepath_Join [mountPath, server, ''archived-'' @ ?n] \<notin> dirs v1"
      and nd: "filepath_Join [mountPath, server, ?n] \<notin> rename_denied v1"
    from ensureMount_ns_mounted [OF m]
    have e: "ensureMount_ns (nfs_Server \<lparr>nfs_Server = server,
        nfs_Path = filepath_Join [path, ?n], nfs_ReadOnly = False\<rparr>)
        (path_Dir (nfs_Path \<lparr>nfs_Server = server,
        nfs_Path = filepath_Join [path, ?n], nfs_ReadOnly = False\<rparr>))
        (filepath_Join [mountPath, nfs_Server \<lparr>nfs_Server = server,
        nfs_Path = filepath_Join [path, ?n], nfs_ReadOnly = False\<rparr>]) v1 = (None, v1)"
      by (simp del: filepath_Join.simps)
    have i: "join_base ?M @ ?n \<in> dirs v1" using made unfolding old .
    have nd': "join_base ?M @ ?n \<notin> rename_denied v1" using nd unfolding old .
    have na': "join_base ?M @ ''archived-'' @ ?n \<notin> dirs v1" using na unfolding new .
    have "path_Dir (filepath_Join [?M, ''archived-'' @ ?n]) = Clean ?M"
      by (rule Dir_Join_any [OF el(2)])
    moreover have "filepath_Join [?M, ''archived-'' @ ?n] = join_base ?M @ ''archived-'' @ ?n"
      by (rule Join_element [OF ne el(2)])
    ultimately have pd: "path_Dir (join_base ?M @ ''archived-'' @ ?n) \<in> dirs v1"
      using ex by (simp add: is_dir_def del: filepath_Join.simps)
    have "fst (os_Rename (join_base ?M @ ?n) (join_base ?M @ ''archived-'' @ ?n) v1) = None"
      by (rule archive_rename_ok [OF co cn i na' pd el(1) join_base_shape nd'])
    then have "fst (os_Rename (filepath_Join [mountPath, server, ?n])
        (filepath_Join [mountPath, server, ''archived-'' @ ?n]) v1) = None"
      unfolding old new .
    then show "fst (Delete_ns bound v1) = Return None"
      using Delete_ns_unfold [OF bn bc e] dn
      by (simp del: filepath_Join.simps split: prod.splits)
  }
qed

text \<open>
  When the archive directory exists, even empty, \<^verbatim>\<open>os.Rename\<close> fails with
  \<^verbatim>\<open>EEXIST\<close> and Delete returns that error; the host is unchanged.
\<close>

lemma Delete_archive_exists:
  "Delete pv1 (provisioned_host\<lparr>dirs := insert
       ''/persistentvolumes/nfs1/%2Fexport/archived-acme-web-svc-pv-1'' (dirs provisioned_host)\<rparr>)
   = (Return (Some (LinkError ''rename''
        ''/persistentvolumes/nfs1/%2Fexport/acme-web-svc-pv-1''
        ''/persistentvolumes/nfs1/%2Fexport/archived-acme-web-svc-pv-1'' EEXIST)),
      provisioned_host\<lparr>dirs := insert
        ''/persistentvolumes/nfs1/%2Fexport/archived-acme-web-svc-pv-1'' (dirs provisioned_host)\<rparr>)"
  by (simp add: Delete_def pv1_def provisioned_host_def eval_defs)

lemma Provision_request_slash:
  "Provision request_slash empty_host = (Inr pv1, provisioned_host_slash)"
  by (simp add: Provision_def request_slash_def request_pv1_def claim_5Gi_def empty_host_def
      pv1_def provisioned_host_slash_def eval_defs insert_commute)

text \<open>
  C1, as stated, fails in both variants. In \<^verbatim>\<open>provisioner.go\<close>, a remote path with a
  trailing slash, \<^verbatim>\<open>/export/\<close>, is mounted by Provision at
  \<^verbatim>\<open>/persistentvolumes/nfs1/%2Fexport%2F\<close>; the descriptor's path is
  \<^verbatim>\<open>/export/acme-web-svc-pv-1\<close>, whose \<^verbatim>\<open>path.Dir\<close> is \<^verbatim>\<open>/export\<close>, so Delete resolves
  \<^verbatim>\<open>/persistentvolumes/nfs1/%2Fexport\<close> and runs a second mount there. In the second
  variant the descriptor that Provision returns has no \<^verbatim>\<open>ClaimRef\<close>, and Delete of that
  very descriptor panics.
\<close>

theorem Delete_after_Provision_counterexample:
  "Provision request_slash empty_host = (Inr pv1, provisioned_host_slash)
   \<and> mount_calls provisioned_host_slash
       = [(''nfs1:/export/'', ''/persistentvolumes/nfs1/%2Fexport%2F'')]
   \<and> mount_calls (snd (Delete pv1 provisioned_host_slash))
       = [(''nfs1:/export/'', ''/persistentvolumes/nfs1/%2Fexport%2F''),
          (''nfs1:/export'', ''/persistentvolumes/nfs1/%2Fexport'')]
   \<and> Provision_ns request_pv1 empty_host = (Inr pv1_ns, provisioned_host_ns)
   \<and> fst (Delete_ns pv1_ns provisioned_host_ns) = NilPointerPanic"
proof -
  have "mount_calls (snd (Delete pv1 provisioned_host_slash))
       = [(''nfs1:/export/'', ''/persistentvolumes/nfs1/%2Fexport%2F''),
          (''nfs1:/export'', ''/persistentvolumes/nfs1/%2Fexport'')]"
    by (simp add: Delete_def pv1_def provisioned_host_slash_def eval_defs)
  moreover have "fst (Delete_ns pv1_ns provisioned_host_ns) = NilPointerPanic"
    by (simp add: Delete_ns_def pv1_ns_def provisioned_host_ns_def eval_defs)
  moreover have "mount_calls provisioned_host_slash
       = [(''nfs1:/export/'', ''/persistentvolumes/nfs1/%2Fexport%2F'')]"
    by (simp add: provisioned_host_slash_def)
  ultimately show ?thesis
    using Provision_request_slash Provision_ns_request_pv1 by simp
qed

text \<open>
  C1, amended. \<^verbatim>\<open>provisioner.go\<close>: let Provision succeed on a request whose remote
  path is clean (\<^verbatim>\<open>path.Clean\<close> leaves it unchanged) and whose tenant, stack, service and
  volume name contain no slash; write \<open>M\<close> for the mount point and \<open>name\<close> for the
  directory name that Provision used. Then, for the descriptor as returned:
  \<^item> Delete resolves the mount point \<open>M\<close> and recomputes \<open>name\<close>;
  \<^item> the directory \<open>M/name\<close> exists after Provision;
  \<^item> whenever Delete, on any later host, returns without error, it has renamed
    \<open>M/name\<close> to \<open>M/archived-name\<close>: the former no longer exists, the latter does,
    and the latter did not exist before the rename;
  \<^item> Delete on the host as Provision left it returns without error when \<open>M\<close> is listed
    as mounted and exists as a directory, \<open>M/archived-name\<close> does not exist, and the
    host does not refuse the rename. (By the item before, Delete never returns without
    error when \<open>M/archived-name\<close> exists, empty or not.)
  Second variant: the same for the descriptor completed with the \<^verbatim>\<open>ClaimRef\<close> of the
  claim's namespace (the controller sets it before it stores the volume), when namespace
  and volume name contain no slash; the mount point is
  \<^verbatim>\<open>filepath.Join(mountPath, server)\<close> in Provision and in Delete.
\<close>

theorem Delete_after_Provision:
  "(accepted options server path \<and> Provision options w = (Inr pv, w1)
      \<and> Clean path = path
      \<and> CHR ''/'' \<notin> set (opt_Tenant options) \<union> set (opt_Stack options)
             \<union> set (opt_Service options) \<union> set (opt_PVName options)
      \<and> M = mountPoint server path \<and> name = volume_name options
    \<longrightarrow> mountPoint server (path_Dir (filepath_Join [path, name])) = M
      \<and> descriptor_name pv = name
      \<and> filepath_Join [M, name] \<in> dirs w1
      \<and> (Delete pv w2 = (Return None, w3) \<longrightarrow>
            filepath_Join [M, name] \<notin> dirs w3
          \<and> filepath_Join [M, ''archived-'' @ name] \<in> dirs w3
          \<and> dirs w3 = moved (filepath_Join [M, name]) (filepath_Join [M, ''archived-'' @ name])
                ` dirs (snd (ensureMount server path w2))
          \<and> filepath_Join [M, ''archived-'' @ name] \<notin> dirs (snd (ensureMount server path w2)))
      \<and> (isMounted w1 M \<and> is_dir w1 M
            \<and> filepath_Join [M, ''archived-'' @ name] \<notin> dirs w1
            \<and> filepath_Join [M, name] \<notin> rename_denied w1
          \<longrightarrow> fst (Delete pv w1) = Return None))
 \<and> (accepted options' server' path' \<and> Provision_ns options' v = (Inr pv', v1)
      \<and> CHR ''/'' \<notin> set (pvc_Namespace (opt_PVC options')) \<union> set (opt_PVName options')
      \<and> bound = pv'\<lparr>pv_ClaimRef := Some \<lparr>ref_Namespace = pvc_Namespace (opt_PVC options')\<rparr>\<rparr>
      \<and> M' = filepath_Join [mountPath, server'] \<and> name' = volume_name_ns options'
    \<longrightarrow> filepath_Join [mountPath, server', name'] = filepath_Join [M', name']
      \<and> pvName_ns (pvc_Namespace (opt_PVC options')) (pv_Name bound) = name'
      \<and> filepath_Join [mountPath, server', name'] \<in> dirs v1
      \<and> (Delete_ns bound v2 = (Return None, v3) \<longrightarrow>
            filepath_Join [mountPath, server', name'] \<notin> dirs v3
          \<and> filepath_Join [mountPath, server', ''archived-'' @ name'] \<in> dirs v3
          \<and> filepath_Join [mountPath, server', ''archived-'' @ name']
              \<notin> dirs (snd (ensureMount_ns server' (path_Dir (filepath_Join [path', name']))
                             M' v2)))
      \<and> (isMounted v1 M' \<and> is_dir v1 M'
            \<and> filepath_Join [mountPath, server', ''archived-'' @ name'] \<notin> dirs v1
            \<and> filepath_Join [mountPath, server', name'] \<notin> rename_denied v1
          \<longrightarrow> fst (Delete_ns bound v1) = Return None))"
proof (intro conjI impI)
  assume h: "accepted options server path \<and> Provision options w = (Inr pv, w1)
      \<and> Clean path = path
      \<and> CHR ''/'' \<notin> set (opt_Tenant options) \<union> set (opt_Stack options)
             \<union> set (opt_Service options) \<union> set (opt_PVName options)
      \<and> M = mountPoint server path \<and> name = volume_name options"
  then have a: "accepted options server path" and p: "Provision options w = (Inr pv, w1)"
    and c: "Clean path = path"
    and f: "CHR ''/'' \<notin> set (opt_Tenant options) \<union> set (opt_Stack options)
             \<union> set (opt_Service options) \<union> set (opt_PVName options)"
    and M: "M = mountPoint server path" and n: "name = volume_name options"
    by blast+
  note main = archive_after_Provision [OF a p c f]
  show "mountPoint server (path_Dir (filepath_Join [path, name])) = M"
    unfolding M n by (rule main(1))
  show "descriptor_name pv = name" unfolding n by (rule main(2))
  show "filepath_Join [M, name] \<in> dirs w1" unfolding M n by (rule main(3))
  {
    assume d: "Delete pv w2 = (Return None, w3)"
    from main(4) [OF d]
    show "filepath_Join [M, name] \<notin> dirs w3"
      and "filepath_Join [M, ''archived-'' @ name] \<in> dirs w3"
      and "dirs w3 = moved (filepath_Join [M, name]) (filepath_Join [M, ''archived-'' @ name])
                ` dirs (snd (ensureMount server path w2))"
      and "filepath_Join [M, ''archived-'' @ name] \<notin> dirs (snd (ensureMount server path w2))"
      unfolding M n by blast+
  }
  {
    assume "isMounted w1 M \<and> is_dir w1 M
            \<and> filepath_Join [M, ''archived-'' @ name] \<notin> dirs w1
            \<and> filepath_Join [M, name] \<notin> rename_denied w1"
    then have "isMounted w1 (mountPoint server path)"
      and "is_dir w1 (mountPoint server path)"
      and "filepath_Join [mountPoint server path, ''archived-'' @ volume_name options]
             \<notin> dirs w1"
      and "filepath_Join [mountPoint server path, volume_name options] \<notin> rename_denied w1"
      unfolding M n by blast+
    then show "fst (Delete pv w1) = Return None" by (rule main(5))
  }
next
  assume h: "accepted options' server' path' \<and> Provision_ns options' v = (Inr pv', v1)
      \<and> CHR ''/'' \<notin> set (pvc_Namespace (opt_PVC options')) \<union> set (opt_PVName options')
      \<and> bound = pv'\<lparr>pv_ClaimRef := Some \<lparr>ref_Namespace = pvc_Namespace (opt_PVC options')\<rparr>\<rparr>
      \<and> M' = filepath_Join [mountPath, server'] \<and> name' = volume_name_ns options'"
  then have a: "accepted options' server' path'"
    and p: "Provision_ns options' v = (Inr pv', v1)"
    and f: "CHR ''/'' \<notin> set (pvc_Namespace (opt_PVC options')) \<union> set (opt_PVName options')"
    and b: "bound = pv'\<lparr>pv_ClaimRef := Some \<lparr>ref_Namespace = pvc_Namespace (opt_PVC options')\<rparr>\<rparr>"
    and M: "M' = filepath_Join [mountPath, server']" and n: "name' = volume_name_ns options'"
    by blast+
  note ns = archive_after_Provision_ns [OF a p f b]
  show "filepath_Join [mountPath, server', name'] = filepath_Join [M', name']"
    unfolding M n by (rule ns(1))
  show "pvName_ns (pvc_Namespace (opt_PVC options')) (pv_Name bound) = name'"
    unfolding n by (rule ns(2))
  show "filepath_Join [mountPath, server', name'] \<in> dirs v1" unfolding n by (rule ns(3))
  {
    assume d: "Delete_ns bound v2 = (Return None, v3)"
    from ns(4) [OF d]
    show "filepath_Join [mountPath, server', name'] \<notin> dirs v3"
      and "filepath_Join [mountPath, server', ''archived-'' @ name'] \<in> dirs v3"
      and "filepath_Join [mountPath, server', ''archived-'' @ name']
              \<notin> dirs (snd (ensureMount_ns server' (path_Dir (filepath_Join [path', name']))
                             M' v2))"
      unfolding M n by blast+
  }
  {
    assume "isMounted v1 M' \<and> is_dir v1 M'
            \<and> filepath_Join [mountPath, server', ''archived-'' @ name'] \<notin> dirs v1
            \<and> filepath_Join [mountPath, server', name'] \<notin> rename_denied v1"
    then have "isMounted v1 (filepath_Join [mountPath, server'])"
      and "is_dir v1 (filepath_Join [mountPath, server'])"
      and "filepath_Join [mountPath, server', ''archived-'' @ volume_name_ns options']
             \<notin> dirs v1"
      and "filepath_Join [mountPath, server', volume_name_ns options'] \<notin> rename_denied v1"
      unfolding M n by blast+
    then show "fst (Delete_ns bound v1) = Return None" by (rule ns(5))
  }
qed

theorem Delete_after_Provision_witness:
  "accepted request_pv1 ''nfs1'' ''/export''
   \<and> Clean ''/export'' = ''/export''
   \<and> Provision request_pv1 empty_host = (Inr pv1, provisioned_host)
   \<and> mountPoint ''nfs1'' (path_Dir ''/export/acme-web-svc-pv-1'')
       = ''/persistentvolumes/nfs1/%2Fexport''
   \<and> descriptor_name pv1 = ''acme-web-svc-pv-1''
   \<and> ''/persistentvolumes/nfs1/%2Fexport/acme-web-svc-pv-1'' \<in> dirs provisioned_host
   \<and> isMounted provisioned_host ''/persistentvolumes/nfs1/%2Fexport''
   \<and> is_dir provisioned_host ''/persistentvolumes/nfs1/%2Fexport''
   \<and> ''/persistentvolumes/nfs1/%2Fexport/archived-acme-web-svc-pv-1'' \<notin> dirs provisioned_host
   \<and> Delete pv1 provisioned_host = (Return None, archived_host)
   \<and> ''/persistentvolumes/nfs1/%2Fexport/acme-web-svc-pv-1'' \<notin> dirs archived_host
   \<and> ''/persistentvolumes/nfs1/%2Fexport/archived-acme-web-svc-pv-1'' \<in> dirs archived_host
   \<and> Provision_ns request_pv1 empty_host = (Inr pv1_ns, provisioned_host_ns)
   \<and> ''/persistentvolumes/nfs1/default-pv-1'' \<in> dirs provisioned_host_ns
   \<and> isMounted provisioned_host_ns ''/persistentvolumes/nfs1''
   \<and> is_dir provisioned_host_ns ''/persistentvolumes/nfs1''
   \<and> ''/persistentvolumes/nfs1/archived-default-pv-1'' \<notin> dirs provisioned_host_ns
   \<and> Delete_ns pv1_ns_bound provisioned_host_ns = (Return None, archived_host_ns)
   \<and> ''/persistentvolumes/nfs1/default-pv-1'' \<notin> dirs archived_host_ns
   \<and> ''/persistentvolumes/nfs1/archived-default-pv-1'' \<in> dirs archived_host_ns
   \<and> ''/persistentvolumes/nfs1/%2Fexport/acme-web-svc-pv-1'' \<notin> rename_denied provisioned_host
   \<and> fst (Delete pv1 provisioned_host) = Return None
   \<and> ''/persistentvolumes/nfs1/default-pv-1'' \<notin> rename_denied provisioned_host_ns
   \<and> fst (Delete_ns pv1_ns_bound provisioned_host_ns) = Return None"
proof -
  have r: "''/persistentvolumes/nfs1/%2Fexport/acme-web-svc-pv-1'' \<notin> rename_denied provisioned_host"
    and r': "''/persistentvolumes/nfs1/default-pv-1'' \<notin> rename_denied provisioned_host_ns"
    by (simp_all add: provisioned_host_def provisioned_host_ns_def)
  have e: "''/persistentvolumes/nfs1/%2Fexport/archived-acme-web-svc-pv-1''
      \<notin> dirs provisioned_host"
    and e': "''/persistentvolumes/nfs1/archived-default-pv-1'' \<notin> dirs provisioned_host_ns"
    by (simp_all add: provisioned_host_def provisioned_host_ns_def)
  have x: "is_dir provisioned_host ''/persistentvolumes/nfs1/%2Fexport''"
    and x': "is_dir provisioned_host_ns ''/persistentvolumes/nfs1''"
    by (simp_all add: provisioned_host_def provisioned_host_ns_def eval_defs)
  have c: "Clean ''/export'' = ''/export''" by (simp add: eval_defs)
  have f: "CHR ''/'' \<notin> set (opt_Tenant request_pv1) \<union> set (opt_Stack request_pv1)
             \<union> set (opt_Service request_pv1) \<union> set (opt_PVName request_pv1)"
    and f': "CHR ''/'' \<notin> set (pvc_Namespace (opt_PVC request_pv1)) \<union> set (opt_PVName request_pv1)"
    by (simp_all add: request_pv1_def claim_5Gi_def)
  have n: "''default-pv-1'' = volume_name_ns request_pv1"
    by (simp add: volume_name_ns_def request_pv1_def claim_5Gi_def pvName_ns_def)
  have b: "pv1_ns_bound
      = pv1_ns\<lparr>pv_ClaimRef := Some \<lparr>ref_Namespace = pvc_Namespace (opt_PVC request_pv1)\<rparr>\<rparr>"
    by (simp add: pv1_ns_bound_def request_pv1_def claim_5Gi_def)
  have j: "filepath_Join [''/persistentvolumes/nfs1/%2Fexport'', ''acme-web-svc-pv-1'']
       = ''/persistentvolumes/nfs1/%2Fexport/acme-web-svc-pv-1''"
    "filepath_Join [''/persistentvolumes/nfs1/%2Fexport'', ''archived-'' @ ''acme-web-svc-pv-1'']
       = ''/persistentvolumes/nfs1/%2Fexport/archived-acme-web-svc-pv-1''"
    "filepath_Join [mountPath, ''nfs1'', ''default-pv-1'']
       = ''/persistentvolumes/nfs1/default-pv-1''"
    "filepath_Join [mountPath, ''nfs1'', ''archived-'' @ ''default-pv-1'']
       = ''/persistentvolumes/nfs1/archived-default-pv-1''"
    "filepath_Join [''/export'', ''acme-web-svc-pv-1''] = ''/export/acme-web-svc-pv-1''"
    by (simp_all add: eval_defs)
  have jm: "''/persistentvolumes/nfs1'' = filepath_Join [mountPath, ''nfs1'']"
    by (simp add: eval_defs)
  have m: "isMounted provisioned_host ''/persistentvolumes/nfs1/%2Fexport''"
    and m': "isMounted provisioned_host_ns ''/persistentvolumes/nfs1''"
    by (simp_all add: isMounted_def provisioned_host_def provisioned_host_ns_def)
  have H: "accepted request_pv1 ''nfs1'' ''/export''
      \<and> Provision request_pv1 empty_host = (Inr pv1, provisioned_host)
      \<and> Clean ''/export'' = ''/export''
      \<and> CHR ''/'' \<notin> set (opt_Tenant request_pv1) \<union> set (opt_Stack request_pv1)
             \<union> set (opt_Service request_pv1) \<union> set (opt_PVName request_pv1)
      \<and> ''/persistentvolumes/nfs1/%2Fexport'' = mountPoint ''nfs1'' ''/export''
      \<and> ''acme-web-svc-pv-1'' = volume_name request_pv1"
    using accepted_request_pv1 Provision_request_pv1 c f mountPoint_nfs1_export [symmetric]
      volume_name_request_pv1 [symmetric]
    by (intro conjI)
  have H': "accepted request_pv1 ''nfs1'' ''/export''
      \<and> Provision_ns request_pv1 empty_host = (Inr pv1_ns, provisioned_host_ns)
      \<and> CHR ''/'' \<notin> set (pvc_Namespace (opt_PVC request_pv1)) \<union> set (opt_PVName request_pv1)
      \<and> pv1_ns_bound
          = pv1_ns\<lparr>pv_ClaimRef := Some \<lparr>ref_Namespace = pvc_Namespace (opt_PVC request_pv1)\<rparr>\<rparr>
      \<and> ''/persistentvolumes/nfs1'' = filepath_Join [mountPath, ''nfs1'']
      \<and> ''default-pv-1'' = volume_name_ns request_pv1"
    using accepted_request_pv1 Provision_ns_request_pv1 f' b jm n
    by (intro conjI)
  note T = Delete_after_Provision [of request_pv1 "''nfs1''" "''/export''" empty_host pv1
      provisioned_host "''/persistentvolumes/nfs1/%2Fexport''" "''acme-web-svc-pv-1''"
      provisioned_host archived_host
      request_pv1 "''nfs1''" "''/export''" empty_host pv1_ns provisioned_host_ns pv1_ns_bound
      "''/persistentvolumes/nfs1''" "''default-pv-1''" provisioned_host_ns archived_host_ns]
  note A = T [THEN conjunct1, THEN mp, OF H, unfolded j]
  note B = T [THEN conjunct2, THEN mp, OF H', unfolded j]
  note A1 = A [THEN conjunct1]
  note A2 = A [THEN conjunct2, THEN conjunct1]
  note A3 = A [THEN conjunct2, THEN conjunct2, THEN conjunct1]
  note A4 = A [THEN conjunct2, THEN conjunct2, THEN conjunct2, THEN conjunct1, THEN mp,
      OF Delete_pv1]
  note B3 = B [THEN conjunct2, THEN conjunct2, THEN conjunct1]
  note B4 = B [THEN conjunct2, THEN conjunct2, THEN conjunct2, THEN conjunct1, THEN mp,
      OF Delete_ns_pv1]
  note A5 = A [THEN conjunct2, THEN conjunct2, THEN conjunct2, THEN conjunct2, THEN mp,
      OF conjI [OF m conjI [OF x conjI [OF e r]]]]
  note B5 = B [THEN conjunct2, THEN conjunct2, THEN conjunct2, THEN conjunct2, THEN mp,
      OF conjI [OF m' conjI [OF x' conjI [OF e' r']]]]
  from accepted_request_pv1 c Provision_request_pv1 A1 A2 A3 m x e Delete_pv1
    A4 [THEN conjunct1] A4 [THEN conjunct2, THEN conjunct1]
    Provision_ns_request_pv1 B3 m' x' e' Delete_ns_pv1 B4 [THEN conjunct1]
    B4 [THEN conjunct2, THEN conjunct1]
    r A5 r' B5
  show ?thesis by (intro conjI)
qed

end
